theory Spec2Isabelle
  imports Main "HOL-Library.AList" "HOL-Library.Sublist"
begin

section \<open>gta: the data the program handles\<close>

text \<open>
  The program is one Go command, \<^verbatim>\<open>RunGTA\<close>, with its helper \<^verbatim>\<open>prepManifest\<close>
  and the manifest type \<^verbatim>\<open>simpleRootManifest\<close>, plus the vendored godep loader
  \<^verbatim>\<open>AsMetadataPair\<close>. The solver library (gps), the operating system and the
  validation command are collaborators: their results enter the model through the
  record \<open>env\<close> below, and every call the program makes to them is written to a log.
  The source file of the command holds two copies of it; the model follows the first
  (lines 1 to 340), the one that has the \<^verbatim>\<open>--verbose\<close> flag.
\<close>

subsection \<open>Versions, constraints, project constraints\<close>

text \<open>
  A \<^verbatim>\<open>gps.Version\<close> has one of three dynamic types, the ones the type switch of the
  verbose display distinguishes. A paired version carries its name and the revision
  under it.
\<close>

datatype version =
    Revision string
  | UnpairedVersion string
  | PairedVersion string string

fun version_String :: "version \<Rightarrow> string" where
  "version_String (Revision r) = r"
| "version_String (UnpairedVersion s) = s"
| "version_String (PairedVersion s r) = s"

text \<open>
  A \<^verbatim>\<open>gps.Constraint\<close> is an interface value: nil, the result of \<^verbatim>\<open>gps.Any()\<close>,
  \<^verbatim>\<open>gps.NewBranch(b)\<close>, \<^verbatim>\<open>gps.NewVersion(t)\<close>, a parsed semver range, or a
  version (every version is a constraint: \<^verbatim>\<open>focus.Constraint = v\<close>).
\<close>

datatype constraint =
    NilConstraint
  | Any
  | NewBranch string
  | NewVersion string
  | SemverConstraint string
  | IsVersion version

record projectIdentifier =
  ProjectRoot :: string
  NetworkName :: string

record projectConstraint =
  Ident :: projectIdentifier
  Constraint :: constraint

subsection \<open>Go maps\<close>

text \<open>
  A Go map is nil or allocated. Reading a nil map gives the zero value and
  \<^verbatim>\<open>ok = false\<close>; assigning to an entry of a nil map panics. An allocated map is
  an association list with one pair per key; assignment replaces the pair of an
  existing key. Ranging over the map visits the pairs in an order Go leaves open: the
  list order stands for one such order, and no statement below depends on it.
\<close>

datatype ('k, 'v) gomap = NilMap | GoMap "('k \<times> 'v) list"

datatype panic =
    NilMapAssignment
  | NilDereference
  | SliceOutOfRange nat nat

definition make_map :: "('k, 'v) gomap" where
  "make_map = GoMap []"

fun gm_lookup :: "('k, 'v) gomap \<Rightarrow> 'k \<Rightarrow> 'v option" where
  "gm_lookup NilMap k = None"
| "gm_lookup (GoMap al) k = map_of al k"

fun gm_set :: "('k, 'v) gomap \<Rightarrow> 'k \<Rightarrow> 'v \<Rightarrow> panic + ('k, 'v) gomap" where
  "gm_set NilMap k v = Inl NilMapAssignment"
| "gm_set (GoMap al) k v = Inr (GoMap (AList.update k v al))"

fun gm_values :: "('k, 'v) gomap \<Rightarrow> 'v list" where
  "gm_values NilMap = []"
| "gm_values (GoMap al) = map snd al"

subsection \<open>Manifests\<close>

text \<open>
  What the program reads of a \<^verbatim>\<open>gps.Manifest\<close>: its two constraint lists. The
  interface value may be nil (\<open>None\<close>).
\<close>

record manifest =
  m_DependencyConstraints :: "projectConstraint list"
  m_TestDependencyConstraints :: "projectConstraint list"

record simpleRootManifest =
  rm_c :: "(string, projectConstraint) gomap"
  rm_tc :: "(string, projectConstraint) gomap"
  rm_ovr :: "(string, projectConstraint) gomap"
  rm_ig :: "(string, bool) gomap"

definition DependencyConstraints :: "simpleRootManifest \<Rightarrow> projectConstraint list" where
  "DependencyConstraints m = gm_values (rm_c m)"

definition TestDependencyConstraints :: "simpleRootManifest \<Rightarrow> projectConstraint list" where
  "TestDependencyConstraints m = gm_values (rm_tc m)"

definition Overrides :: "simpleRootManifest \<Rightarrow> (string, projectConstraint) gomap" where
  "Overrides m = rm_ovr m"

definition IgnorePackages :: "simpleRootManifest \<Rightarrow> (string, bool) gomap" where
  "IgnorePackages m = rm_ig m"

text \<open>
  The two loops of \<^verbatim>\<open>prepManifest\<close>: \<^verbatim>\<open>for _, d := range ds { mp[d.Ident.ProjectRoot] = d }\<close>.
\<close>

fun set_each :: "(string, projectConstraint) gomap \<Rightarrow> projectConstraint list
    \<Rightarrow> panic + (string, projectConstraint) gomap" where
  "set_each mp [] = Inr mp"
| "set_each mp (d # ds) =
     (case gm_set mp (ProjectRoot (Ident d)) d of
        Inl p \<Rightarrow> Inl p
      | Inr mp' \<Rightarrow> set_each mp' ds)"

definition prepManifest :: "manifest option \<Rightarrow> panic + simpleRootManifest" where
  "prepManifest m =
     (let rm = \<lparr>rm_c = make_map, rm_tc = make_map, rm_ovr = NilMap, rm_ig = NilMap\<rparr> in
      case m of
        None \<Rightarrow> Inr rm
      | Some mf \<Rightarrow>
          (case set_each (rm_c rm) (m_DependencyConstraints mf) of
             Inl p \<Rightarrow> Inl p
           | Inr c' \<Rightarrow>
               (case set_each (rm_tc rm) (m_TestDependencyConstraints mf) of
                  Inl p \<Rightarrow> Inl p
                | Inr tc' \<Rightarrow> Inr (rm\<lparr>rm_c := c', rm_tc := tc'\<rparr>))))"

subsection \<open>The godep loader\<close>

text \<open>
  \<^verbatim>\<open>godep.AsMetadataPair\<close> reads \<^verbatim>\<open>Godeps/Godeps.json\<close> under a directory. The
  file system and the JSON decoder answer through \<open>godeps_file\<close>: the stat fails, the
  open fails, the decoding fails, or the file decodes to a \<^verbatim>\<open>Godeps\<close> value.
  \<^verbatim>\<open>util.NormalizeName\<close> is a parameter (it returns the root and the sub-path; the
  loader keeps the root). Of \<^verbatim>\<open>cfg.Dependency\<close> the loader names two fields, Name
  and Version (the latter only in \<^verbatim>\<open>Parse\<close>); a field a struct literal leaves out
  holds the zero value, the empty string. \<^verbatim>\<open>seen\<close> is a \<^verbatim>\<open>map[string]bool\<close> read
  for presence only: a set.
\<close>

record godep_Dependency =
  dep_ImportPath :: string
  dep_Comment :: string
  dep_Rev :: string

record Godeps =
  ImportPath :: string
  GoVersion :: string
  Packages :: "string list"
  Deps :: "godep_Dependency list"
  outerRoot :: string

record cfg_Dependency =
  cfg_Name :: string
  cfg_Version :: string

record cfg_Lock =
  lock_Name :: string
  lock_Revision :: string

record cfg_Lockfile =
  Imports :: "cfg_Lock list"

datatype godeps_file =
    StatFails string
  | OpenFails string
  | DecodeFails string
  | Decodes Godeps

text \<open>
  \<^verbatim>\<open>filepath.Join\<close> on two clean, non-empty elements, which it joins by a slash.
  (On other elements \<^verbatim>\<open>filepath.Join\<close> also cleans the result; the working directory
  that \<^verbatim>\<open>os.Getwd\<close> returns and the constant names joined to it are clean.)
\<close>

definition filepath_Join :: "string \<Rightarrow> string \<Rightarrow> string" where
  "filepath_Join a b = a @ ''/'' @ b"

fun godep_loop :: "(string \<Rightarrow> string \<times> string) \<Rightarrow> godep_Dependency list \<Rightarrow> string set
    \<Rightarrow> cfg_Dependency list \<Rightarrow> cfg_Lockfile \<Rightarrow> cfg_Dependency list \<times> cfg_Lockfile" where
  "godep_loop NormalizeName [] seen m l = (m, l)"
| "godep_loop NormalizeName (d # ds) seen m l =
     (let pkg = fst (NormalizeName (dep_ImportPath d)) in
      if pkg \<notin> seen
      then godep_loop NormalizeName ds (insert pkg seen)
             (m @ [\<lparr>cfg_Name = pkg, cfg_Version = ''''\<rparr>])
             (l\<lparr>Imports := Imports l @ [\<lparr>lock_Name = pkg, lock_Revision = dep_Rev d\<rparr>]\<rparr>)
      else godep_loop NormalizeName ds seen m l)"

definition AsMetadataPair :: "(string \<Rightarrow> string \<times> string) \<Rightarrow> (string \<Rightarrow> godeps_file) \<Rightarrow> string
    \<Rightarrow> string + (cfg_Dependency list \<times> cfg_Lockfile)" where
  "AsMetadataPair NormalizeName file dir =
     (let path = filepath_Join dir ''Godeps/Godeps.json'' in
      case file path of
        StatFails e \<Rightarrow> Inl e
      | OpenFails e \<Rightarrow> Inl e
      | DecodeFails e \<Rightarrow> Inl e
      | Decodes godeps \<Rightarrow> Inr (godep_loop NormalizeName (Deps godeps) {} [] \<lparr>Imports = []\<rparr>))"

text \<open>
  The two notions the loader's description uses: the import list as pairs of canonical
  identifier and pinned revision, and "keep only the first occurrence per identifier".
\<close>

definition pins :: "(string \<Rightarrow> string \<times> string) \<Rightarrow> godep_Dependency list
    \<Rightarrow> (string \<times> string) list" where
  "pins NormalizeName ds = map (\<lambda>d. (fst (NormalizeName (dep_ImportPath d)), dep_Rev d)) ds"

fun keep_first :: "('k \<times> 'v) list \<Rightarrow> ('k \<times> 'v) list" where
  "keep_first [] = []"
| "keep_first (x # xs) = x # keep_first (filter (\<lambda>y. fst y \<noteq> fst x) xs)"

subsection \<open>Solutions and solver parameters\<close>

record lockedProject =
  lp_Ident :: projectIdentifier
  lp_Version :: version

type_synonym solution = "lockedProject list"

type_synonym lock = "lockedProject list option"

record solveParameters =
  Manifest :: simpleRootManifest
  Lock :: lock
  RootDir :: string
  ImportRoot :: string
  Trace :: bool

record solnOrErr =
  soe_v :: version
  soe_s :: "solution option"
  soe_err :: "string option"

subsection \<open>The world outside: disk, collaborator calls, standard output\<close>

text \<open>
  The disk maps a path to the directory tree standing there, if any; a tree is the
  list of its files (relative path and bytes), the empty list an empty directory. Every
  call to a collaborator is logged with its arguments, its result and the disk it left
  behind. Standard output is the list of lines printed; each constructor of \<open>line\<close>
  stands for one \<^verbatim>\<open>Printf\<close> or \<^verbatim>\<open>Println\<close> of the source, with its arguments.
\<close>

type_synonym tree = "(string \<times> string) list"

type_synonym filesystem = "string \<Rightarrow> tree option"

datatype call =
    CallPrepare solveParameters
  | CallSolve solveParameters
  | CallStat string bool
  | CallRename string string "string option"
  | CallWriteDepTree string "solution option" "string option"
  | CallCommand string "string list" string string "string option"
  | CallRemoveAll string

datatype error =
    SingleDependencyRequired
  | NoWorkingDirectory string
  | SourceManagerSetupFailed string
  | NoSourceInfo string string
  | VersionListFailed projectIdentifier string
  | NoVersionsLocated projectIdentifier
  | OnlyOneConstraintType
  | InvalidSemverConstraint string
  | ManifestAndLockUnreadable string
  | NoneMatched string nat constraint
  | BackupFailed string
  | EncounteredErrors

datatype line =
    Checking string "version list"
  | LookingFor string version
  | SolveSuccess
  | SolveFailed
  | ProjectAt string string
  | SolveErrorText string
  | Spacer
  | FailedSolving string string
  | Succeeded string
  | SkippingCheck string string
  | FailedWith string string string
  | ErrorText error

record world =
  disk :: filesystem
  calls :: "(call \<times> filesystem) list"
  stdout :: "line list"

text \<open>
  How a Go function ends: it returns a value, it returns an error, or it panics.
\<close>

datatype 'a res = Done 'a | Error error | Panic panic

text \<open>
  The collaborators. A Go result \<^verbatim>\<open>(T, error)\<close> is a sum with the error message on
  the left; a lone \<^verbatim>\<open>error\<close> is an optional message. \<open>WriteDepTree\<close> is given the
  base directory, the solution and what stands at the base directory, and answers with
  its error and what stands there afterwards. \<open>CombinedOutput\<close> is given the command
  name, its arguments, the working directory and the disk, and answers with the
  captured output, the error (a non-zero exit or a failure to start) and the disk the
  command left. \<open>RemoveAll\<close> is given the path and what stands there, and answers with
  what is left there: nothing when the removal succeeds, something when it fails (the
  program drops the error of \<^verbatim>\<open>os.RemoveAll\<close>).
\<close>

record env =
  Getwd :: "string + string"
  GOPATH :: string
  NewSourceManager :: "string option"
  DeduceProjectRoot :: "string \<Rightarrow> string + string"
  ListVersions :: "projectIdentifier \<Rightarrow> string + version list"
  SortForUpgrade :: "version list \<Rightarrow> version list"
  NewSemverConstraint :: "string \<Rightarrow> string + constraint"
  Matches :: "constraint \<Rightarrow> version \<Rightarrow> bool"
  DeriveManifestAndLock :: "string \<Rightarrow> string \<Rightarrow> string + (manifest option \<times> lock)"
  Prepare :: "solveParameters \<Rightarrow> string option"
  Solve :: "solveParameters \<Rightarrow> string + solution"
  WriteDepTree :: "string \<Rightarrow> solution option \<Rightarrow> tree option \<Rightarrow> string option \<times> tree option"
  CombinedOutput :: "string \<Rightarrow> string list \<Rightarrow> string \<Rightarrow> filesystem
     \<Rightarrow> (string \<times> string option) \<times> filesystem"
  RemoveAll :: "string \<Rightarrow> tree option \<Rightarrow> tree option"

text \<open>The package-level flag variables.\<close>

record flags =
  run :: string
  branch :: string
  semver :: string
  version :: string
  verbose :: bool

definition emit :: "line \<Rightarrow> world \<Rightarrow> world" where
  "emit l w = w\<lparr>stdout := stdout w @ [l]\<rparr>"

definition record_call :: "call \<Rightarrow> world \<Rightarrow> world" where
  "record_call c w = w\<lparr>calls := calls w @ [(c, disk w)]\<rparr>"

subsection \<open>Operating-system and library calls\<close>

text \<open>
  \<^verbatim>\<open>os.Stat\<close> answers whether its error is nil: something stands at the path.
  \<^verbatim>\<open>os.Rename\<close> of a directory to another path fails when the old path does
  not exist, and when the new path is an existing directory, empty or not (Go checks
  the target first and refuses a directory with "file exists"); it changes nothing
  then; otherwise the tree moves. \<^verbatim>\<open>os.RemoveAll\<close> leaves at the path what the
  collaborator says is left.
\<close>

definition os_Stat :: "string \<Rightarrow> world \<Rightarrow> bool \<times> world" where
  "os_Stat p w = (disk w p \<noteq> None, record_call (CallStat p (disk w p \<noteq> None)) w)"

definition os_Rename :: "string \<Rightarrow> string \<Rightarrow> world \<Rightarrow> string option \<times> world" where
  "os_Rename old new w =
     (case disk w old of
        None \<Rightarrow> (Some ''no such file or directory'',
                 record_call (CallRename old new (Some ''no such file or directory'')) w)
      | Some t \<Rightarrow>
          (case disk w new of
             Some u \<Rightarrow> (Some ''file exists'',
                 record_call (CallRename old new (Some ''file exists'')) w)
           | None \<Rightarrow> (None, record_call (CallRename old new None)
                      (w\<lparr>disk := (disk w)(old := None, new \<mapsto> t)\<rparr>))))"

definition os_RemoveAll :: "env \<Rightarrow> string \<Rightarrow> world \<Rightarrow> world" where
  "os_RemoveAll e p w =
     record_call (CallRemoveAll p) (w\<lparr>disk := (disk w)(p := RemoveAll e p (disk w p))\<rparr>)"

definition gps_WriteDepTree :: "env \<Rightarrow> string \<Rightarrow> solution option \<Rightarrow> world
    \<Rightarrow> string option \<times> world" where
  "gps_WriteDepTree e basedir s w =
     (case WriteDepTree e basedir s (disk w basedir) of
        (err, new) \<Rightarrow>
          (err, record_call (CallWriteDepTree basedir s err) (w\<lparr>disk := (disk w)(basedir := new)\<rparr>)))"

definition exec_CombinedOutput :: "env \<Rightarrow> string \<Rightarrow> string list \<Rightarrow> string \<Rightarrow> world
    \<Rightarrow> (string \<times> string option) \<times> world" where
  "exec_CombinedOutput e name args dir w =
     (case CombinedOutput e name args dir (disk w) of
        ((out, err), d) \<Rightarrow>
          ((out, err), record_call (CallCommand name args dir out err) (w\<lparr>disk := d\<rparr>)))"

text \<open>\<^verbatim>\<open>strings.Split(s, sep)\<close> for a separator of one byte.\<close>

fun strings_Split :: "string \<Rightarrow> char \<Rightarrow> string list" where
  "strings_Split [] sep = [[]]"
| "strings_Split (x # xs) sep =
     (if x = sep then [] # strings_Split xs sep
      else (case strings_Split xs sep of
              [] \<Rightarrow> [[x]]
            | p # ps \<Rightarrow> (x # p) # ps))"

definition strings_TrimPrefix :: "string \<Rightarrow> string \<Rightarrow> string" where
  "strings_TrimPrefix s p = (if prefix p s then drop (length p) s else s)"

text \<open>\<^verbatim>\<open>filepath.ToSlash\<close> where the separator is the slash.\<close>

definition filepath_ToSlash :: "string \<Rightarrow> string" where
  "filepath_ToSlash s = s"

subsection \<open>RunGTA: from the arguments to the filtered version list\<close>

text \<open>
  RunGTA is written in three parts, in the order of the source: what it does up to the
  filtered version list (\<open>run_setup\<close>, every early return an \<open>Error\<close>), the sweep,
  and the backup with the checks and the verdict (\<open>report\<close>). The source manager is an
  opaque handle; the deferred \<^verbatim>\<open>sm.Release()\<close> touches nothing that is modelled and
  is left out, as are the two \<^verbatim>\<open>cmd.Silence\<close> assignments.
\<close>

definition parse_constraint :: "env \<Rightarrow> flags \<Rightarrow> error + constraint" where
  "parse_constraint e fl =
     (if branch fl = [] \<and> semver fl = [] \<and> version fl = [] then Inr Any
      else if branch fl \<noteq> [] then
        (if semver fl \<noteq> [] \<or> version fl \<noteq> [] then Inl OnlyOneConstraintType
         else Inr (NewBranch (branch fl)))
      else if version fl \<noteq> [] then
        (if semver fl \<noteq> [] \<or> branch fl \<noteq> [] then Inl OnlyOneConstraintType
         else Inr (NewVersion (version fl)))
      else if semver fl \<noteq> [] then
        (if version fl \<noteq> [] \<or> branch fl \<noteq> [] then Inl OnlyOneConstraintType
         else (case NewSemverConstraint e (semver fl) of
                 Inl err \<Rightarrow> Inl (InvalidSemverConstraint (semver fl))
               | Inr c \<Rightarrow> Inr c))
      else Inr NilConstraint)"

text \<open>
  The focal entry: the one the baseline has for the root, or a fresh one, with the
  user's constraint put in.
\<close>

definition init_focus :: "simpleRootManifest \<Rightarrow> string \<Rightarrow> constraint \<Rightarrow> projectConstraint" where
  "init_focus rm root c =
     (let focus = (case gm_lookup (rm_c rm) root of
                     Some f \<Rightarrow> f
                   | None \<Rightarrow> \<lparr>Ident = \<lparr>ProjectRoot = root, NetworkName = ''''\<rparr>,
                              Constraint = NilConstraint\<rparr>)
      in focus\<lparr>Constraint := c\<rparr>)"

text \<open>The filter loop: \<^verbatim>\<open>if focus.Constraint.Matches(v) { vl = append(vl, v) }\<close>.\<close>

fun filter_versions :: "env \<Rightarrow> projectConstraint \<Rightarrow> version list \<Rightarrow> version list
    \<Rightarrow> version list" where
  "filter_versions e focus [] vl = vl"
| "filter_versions e focus (v # vs) vl =
     filter_versions e focus vs (if Matches e (Constraint focus) v then vl @ [v] else vl)"

record runctx =
  cx_wd :: string
  cx_root :: string
  cx_rm :: simpleRootManifest
  cx_focus :: projectConstraint
  cx_params :: solveParameters
  cx_vlist :: "version list"
  cx_vl :: "version list"

definition run_setup :: "env \<Rightarrow> flags \<Rightarrow> string list \<Rightarrow> runctx res" where
  "run_setup e fl args =
     (case args of
        [pkg] \<Rightarrow>
          (case Getwd e of
             Inl err \<Rightarrow> Error (NoWorkingDirectory err)
           | Inr wd \<Rightarrow>
          (case NewSourceManager e of
             Some err \<Rightarrow> Error (SourceManagerSetupFailed err)
           | None \<Rightarrow>
          (case DeduceProjectRoot e pkg of
             Inl err \<Rightarrow> Error (NoSourceInfo pkg err)
           | Inr root \<Rightarrow>
          (case ListVersions e \<lparr>ProjectRoot = root, NetworkName = ''''\<rparr> of
             Inl err \<Rightarrow> Error (VersionListFailed \<lparr>ProjectRoot = root, NetworkName = ''''\<rparr> err)
           | Inr vlist0 \<Rightarrow>
          if length vlist0 = 0
          then Error (NoVersionsLocated \<lparr>ProjectRoot = root, NetworkName = ''''\<rparr>)
          else
          (let vlist = SortForUpgrade e vlist0 in
           case parse_constraint e fl of
             Inl err \<Rightarrow> Error err
           | Inr c \<Rightarrow>
          (let srcprefix = filepath_Join (GOPATH e) ''src'' @ ''/'';
               importroot = filepath_ToSlash (strings_TrimPrefix wd srcprefix) in
           case DeriveManifestAndLock e wd importroot of
             Inl err \<Rightarrow> Error (ManifestAndLockUnreadable err)
           | Inr (m, l) \<Rightarrow>
          (case prepManifest m of
             Inl p \<Rightarrow> Panic p
           | Inr rm \<Rightarrow>
          (let focus = init_focus rm root c;
               params = \<lparr>Manifest = rm, Lock = l, RootDir = wd, ImportRoot = importroot,
                         Trace = True\<rparr>;
               vl = filter_versions e focus vlist []
           in if length vl = 0 then Error (NoneMatched root (length vlist) c)
              else Done \<lparr>cx_wd = wd, cx_root = root, cx_rm = rm, cx_focus = focus,
                         cx_params = params, cx_vlist = vlist, cx_vl = vl\<rparr>))))))))
      | _ \<Rightarrow> Error SingleDependencyRequired)"

subsection \<open>RunGTA: the sweep\<close>

definition ppi :: "projectIdentifier \<Rightarrow> string" where
  "ppi pid =
     (if NetworkName pid = [] \<or> NetworkName pid = ProjectRoot pid then ProjectRoot pid
      else ProjectRoot pid @ '' (from '' @ NetworkName pid @ '')'')"

text \<open>
  The verbose display of a solution. \<^verbatim>\<open>v.String()[:7]\<close> panics when the string has
  fewer than seven bytes.
\<close>

fun show_projects :: "lockedProject list \<Rightarrow> world \<Rightarrow> panic option \<times> world" where
  "show_projects [] w = (None, w)"
| "show_projects (p # ps) w =
     (case lp_Version p of
        Revision r \<Rightarrow>
          if length r < 7 then (Some (SliceOutOfRange 7 (length r)), w)
          else show_projects ps (emit (ProjectAt (ppi (lp_Ident p)) (take 7 r)) w)
      | UnpairedVersion s \<Rightarrow>
          show_projects ps (emit (ProjectAt (ppi (lp_Ident p)) s) w)
      | PairedVersion s r \<Rightarrow>
          if length r < 7 then (Some (SliceOutOfRange 7 (length r)), w)
          else show_projects ps
                 (emit (ProjectAt (ppi (lp_Ident p)) (s @ '' ('' @ take 7 r @ '')'')) w))"

text \<open>\<^verbatim>\<open>gps.Prepare\<close>, then \<^verbatim>\<open>s.Solve()\<close> if that gave no error.\<close>

definition solve_one :: "env \<Rightarrow> solveParameters \<Rightarrow> version \<Rightarrow> world \<Rightarrow> solnOrErr \<times> world" where
  "solve_one e ps v w =
     (case Prepare e ps of
        Some err \<Rightarrow> (\<lparr>soe_v = v, soe_s = None, soe_err = Some err\<rparr>,
                    record_call (CallPrepare ps) w)
      | None \<Rightarrow>
          (case Solve e ps of
             Inl err \<Rightarrow> (\<lparr>soe_v = v, soe_s = None, soe_err = Some err\<rparr>,
                         record_call (CallSolve ps) (record_call (CallPrepare ps) w))
           | Inr s \<Rightarrow> (\<lparr>soe_v = v, soe_s = Some s, soe_err = None\<rparr>,
                       record_call (CallSolve ps) (record_call (CallPrepare ps) w))))"

definition show_outcome :: "flags \<Rightarrow> solnOrErr \<Rightarrow> world \<Rightarrow> panic option \<times> world" where
  "show_outcome fl soe w =
     (case soe_err soe of
        None \<Rightarrow>
          (if verbose fl
           then (case soe_s soe of
                   None \<Rightarrow> (Some NilDereference, emit SolveSuccess w)
                 | Some s \<Rightarrow> show_projects s (emit SolveSuccess w))
           else (None, emit SolveSuccess w))
      | Some err \<Rightarrow>
          (if verbose fl then (None, emit (SolveErrorText err) (emit SolveFailed w))
           else (None, emit SolveFailed w)))"

text \<open>
  One iteration. \<^verbatim>\<open>params.Manifest\<close> holds a copy of the struct \<^verbatim>\<open>rm\<close>, whose map
  fields point to the same maps: the assignment \<^verbatim>\<open>rm.c[root] = focus\<close> is seen by
  the solver through \<^verbatim>\<open>params\<close>.
\<close>

definition sweep_step :: "env \<Rightarrow> flags \<Rightarrow> string \<Rightarrow> solveParameters \<Rightarrow> simpleRootManifest
    \<Rightarrow> projectConstraint \<Rightarrow> version \<Rightarrow> world
    \<Rightarrow> (panic + simpleRootManifest \<times> projectConstraint \<times> solnOrErr) \<times> world" where
  "sweep_step e fl root params rm focus v w =
     (case gm_set (rm_c rm) root (focus\<lparr>Constraint := IsVersion v\<rparr>) of
        Inl p \<Rightarrow> (Inl p, emit (LookingFor root v) w)
      | Inr c' \<Rightarrow>
          (case solve_one e (params\<lparr>Manifest := rm\<lparr>rm_c := c'\<rparr>\<rparr>) v
                  (emit (LookingFor root v) w) of
             (soe, w1) \<Rightarrow>
               (case show_outcome fl soe w1 of
                  (Some p, w2) \<Rightarrow> (Inl p, w2)
                | (None, w2) \<Rightarrow>
                    (Inr (rm\<lparr>rm_c := c'\<rparr>, focus\<lparr>Constraint := IsVersion v\<rparr>, soe), w2))))"

text \<open>
  The loop \<^verbatim>\<open>for k, v := range vl { ...; solns[k] = soe }\<close> over a slice allocated
  with \<^verbatim>\<open>len(vl)\<close> slots: \<open>k\<close> runs over exactly the slots, so the slice after the
  loop is the list of the values assigned, in order.
\<close>

fun sweep :: "env \<Rightarrow> flags \<Rightarrow> string \<Rightarrow> solveParameters \<Rightarrow> simpleRootManifest
    \<Rightarrow> projectConstraint \<Rightarrow> version list \<Rightarrow> solnOrErr list \<Rightarrow> world
    \<Rightarrow> (panic + solnOrErr list) \<times> world" where
  "sweep e fl root params rm focus [] solns w = (Inr solns, w)"
| "sweep e fl root params rm focus (v # vs) solns w =
     (case sweep_step e fl root params rm focus v w of
        (Inl p, w') \<Rightarrow> (Inl p, w')
      | (Inr (rm', focus', soe), w') \<Rightarrow> sweep e fl root params rm' focus' vs (solns @ [soe]) w')"

subsection \<open>RunGTA: backup, the checks, the verdict\<close>

text \<open>The body of the second loop, for one candidate.\<close>

definition check_one :: "env \<Rightarrow> flags \<Rightarrow> string \<Rightarrow> string \<Rightarrow> string \<Rightarrow> solnOrErr
    \<Rightarrow> bool \<times> world \<Rightarrow> bool \<times> world" where
  "check_one e fl root wd vpath soln st =
     (case st of (fail, w) \<Rightarrow>
      (case soe_err soln of
         Some err \<Rightarrow>
           (True, emit (FailedSolving (root @ ''@'' @ version_String (soe_v soln)) err) w)
       | None \<Rightarrow>
           if run fl = []
           then (fail, emit (Succeeded (root @ ''@'' @ version_String (soe_v soln))) w)
           else
             (case gps_WriteDepTree e vpath (soe_s soln) w of
                (Some err, w1) \<Rightarrow>
                  (True, emit (SkippingCheck (root @ ''@'' @ version_String (soe_v soln)) err) w1)
              | (None, w1) \<Rightarrow>
                  (case exec_CombinedOutput e (hd (strings_Split (run fl) CHR '' ''))
                          (tl (strings_Split (run fl) CHR '' '')) wd w1 of
                     ((out, Some err), w2) \<Rightarrow>
                       (True, os_RemoveAll e vpath
                          (emit (FailedWith (root @ ''@'' @ version_String (soe_v soln)) err out) w2))
                   | ((out, None), w2) \<Rightarrow>
                       (fail, os_RemoveAll e vpath
                          (emit (Succeeded (root @ ''@'' @ version_String (soe_v soln))) w2))))))"

fun check_all :: "env \<Rightarrow> flags \<Rightarrow> string \<Rightarrow> string \<Rightarrow> string \<Rightarrow> solnOrErr list
    \<Rightarrow> bool \<times> world \<Rightarrow> bool \<times> world" where
  "check_all e fl root wd vpath [] st = st"
| "check_all e fl root wd vpath (soln # solns) st =
     check_all e fl root wd vpath solns (check_one e fl root wd vpath soln st)"

definition verdict :: "bool \<Rightarrow> unit res" where
  "verdict fail = (if fail then Error EncounteredErrors else Done ())"

text \<open>
  The backup, the loop and the return. The deferred \<^verbatim>\<open>os.Rename\<close> is registered only
  after the backup succeeded; it runs when RunGTA returns, and its error is dropped.
\<close>

definition report :: "env \<Rightarrow> flags \<Rightarrow> string \<Rightarrow> string \<Rightarrow> solnOrErr list \<Rightarrow> world
    \<Rightarrow> unit res \<times> world" where
  "report e fl root wd solns w =
     (let vpath = filepath_Join wd ''vendor'' in
      if run fl \<noteq> [] then
        (case os_Stat vpath w of
           (True, w1) \<Rightarrow>
             (case os_Rename vpath (filepath_Join wd ''_origvendor'') w1 of
                (Some err, w2) \<Rightarrow> (Error (BackupFailed err), w2)
              | (None, w2) \<Rightarrow>
                  (case check_all e fl root wd vpath solns (False, w2) of
                     (fail, w3) \<Rightarrow>
                       (verdict fail,
                        snd (os_Rename (filepath_Join wd ''_origvendor'') vpath w3))))
         | (False, w1) \<Rightarrow>
             (case check_all e fl root wd vpath solns (False, w1) of
                (fail, w3) \<Rightarrow> (verdict fail, w3)))
      else
        (case check_all e fl root wd vpath solns (False, w) of
           (fail, w3) \<Rightarrow> (verdict fail, w3)))"

definition RunGTA :: "env \<Rightarrow> flags \<Rightarrow> string list \<Rightarrow> world \<Rightarrow> unit res \<times> world" where
  "RunGTA e fl args w =
     (case run_setup e fl args of
        Error err \<Rightarrow> (Error err, w)
      | Panic p \<Rightarrow> (Panic p, w)
      | Done cx \<Rightarrow>
          (case sweep e fl (cx_root cx) (cx_params cx) (cx_rm cx) (cx_focus cx) (cx_vl cx) []
                  (emit (Checking (cx_root cx) (cx_vl cx)) w) of
             (Inl p, w2) \<Rightarrow> (Panic p, w2)
           | (Inr solns, w2) \<Rightarrow> report e fl (cx_root cx) (cx_wd cx) solns (emit Spacer w2)))"

text \<open>
  \<^verbatim>\<open>main\<close>: the exit status is 0 when RunGTA returned nil, 1 (after printing the
  error) when it returned an error, and 2 when the program panicked.
\<close>

definition main :: "env \<Rightarrow> flags \<Rightarrow> string list \<Rightarrow> world \<Rightarrow> nat \<times> world" where
  "main e fl args w =
     (case RunGTA e fl args w of
        (Done u, w') \<Rightarrow> (0, w')
      | (Error err, w') \<Rightarrow> (1, emit (ErrorText err) w')
      | (Panic p, w') \<Rightarrow> (2, w'))"

subsection \<open>Notions used in the statements\<close>

text \<open>The solver's calls, as opposed to the calls that read or change the disk.\<close>

fun is_solver_call :: "call \<Rightarrow> bool" where
  "is_solver_call (CallPrepare ps) = True"
| "is_solver_call (CallSolve ps) = True"
| "is_solver_call c = False"

text \<open>A check that failed: a tree that could not be written, a command that failed.\<close>

fun is_failed_check :: "call \<Rightarrow> bool" where
  "is_failed_check (CallWriteDepTree basedir s (Some err)) = True"
| "is_failed_check (CallCommand name args dir out (Some err)) = True"
| "is_failed_check c = False"

fun is_command_call :: "call \<Rightarrow> bool" where
  "is_command_call (CallCommand name args dir out err) = True"
| "is_command_call c = False"

text \<open>A version that carries the name \<open>T\<close>: a tag or branch \<open>T\<close>, alone or paired.\<close>

fun named :: "string \<Rightarrow> version \<Rightarrow> bool" where
  "named T (Revision r) = False"
| "named T (UnpairedVersion s) = (s = T)"
| "named T (PairedVersion s r) = (s = T)"

text \<open>\<^verbatim>\<open>strings.Join\<close>.\<close>

fun strings_Join :: "string list \<Rightarrow> string \<Rightarrow> string" where
  "strings_Join [] sep = []"
| "strings_Join [p] sep = p"
| "strings_Join (p # q # ps) sep = p @ sep @ strings_Join (q # ps) sep"

text \<open>
  Tokenizing on whitespace, as the specification words it: the maximal runs of
  bytes that are not white space (space, tab, line feed, vertical tab, form feed,
  carriage return).
\<close>

definition is_space :: "char \<Rightarrow> bool" where
  "is_space ch = (ch \<in> {CHR '' '', CHR 0x09, CHR 0x0A, CHR 0x0B, CHR 0x0C, CHR 0x0D})"

fun whitespace_fields :: "string \<Rightarrow> string \<Rightarrow> string list" where
  "whitespace_fields [] cur = (if cur = [] then [] else [cur])"
| "whitespace_fields (x # xs) cur =
     (if is_space x then (if cur = [] then whitespace_fields xs [] else cur # whitespace_fields xs [])
      else whitespace_fields xs (cur @ [x]))"

text \<open>
  A process that is killed runs no deferred call: what stays on disk is what the last
  completed call left. \<open>killed_after n w\<close> is the disk left by call number \<open>n\<close>
  (counted from 0) of the log of \<open>w\<close>.
\<close>

definition killed_after :: "nat \<Rightarrow> world \<Rightarrow> filesystem" where
  "killed_after n w = snd (calls w ! n)"

text \<open>
  The point RunGTA reaches when nothing stopped it before the backup: the values it
  holds there, the outcome records of the sweep and the world.
\<close>

definition before_report :: "env \<Rightarrow> flags \<Rightarrow> string list \<Rightarrow> world
    \<Rightarrow> (runctx \<times> solnOrErr list \<times> world) option" where
  "before_report e fl args w =
     (case run_setup e fl args of
        Done cx \<Rightarrow>
          (case sweep e fl (cx_root cx) (cx_params cx) (cx_rm cx) (cx_focus cx) (cx_vl cx) []
                  (emit (Checking (cx_root cx) (cx_vl cx)) w) of
             (Inr solns, w2) \<Rightarrow> Some (cx, solns, emit Spacer w2)
           | (Inl p, w2) \<Rightarrow> None)
      | Error err \<Rightarrow> None
      | Panic p \<Rightarrow> None)"

subsection \<open>A concrete run\<close>

text \<open>
  A project at \<open>/go/src/me/proj\<close> that depends on \<open>github.com/foo/bar\<close>, which has the
  versions v1, v2 and v3; the solver finds a solution with v1 and with v2, and none
  with v3. A vendor directory stands in the project.
\<close>

definition demo_manifest :: manifest where
  "demo_manifest =
     \<lparr>m_DependencyConstraints =
        [\<lparr>Ident = \<lparr>ProjectRoot = ''github.com/foo/bar'', NetworkName = ''''\<rparr>, Constraint = Any\<rparr>,
         \<lparr>Ident = \<lparr>ProjectRoot = ''github.com/baz/qux'', NetworkName = ''''\<rparr>,
          Constraint = NewVersion ''v3''\<rparr>],
      m_TestDependencyConstraints = []\<rparr>"

fun demo_Matches :: "constraint \<Rightarrow> version \<Rightarrow> bool" where
  "demo_Matches Any v = True"
| "demo_Matches (NewVersion t) v = named t v"
| "demo_Matches (IsVersion u) v = (u = v)"
| "demo_Matches c v = False"

definition demo_Solve :: "solveParameters \<Rightarrow> string + solution" where
  "demo_Solve ps =
     (case gm_lookup (rm_c (Manifest ps)) ''github.com/foo/bar'' of
        Some pc \<Rightarrow>
          (case Constraint pc of
             IsVersion v \<Rightarrow>
               if version_String v = ''v3'' then Inl ''no solution''
               else Inr [\<lparr>lp_Ident = Ident pc, lp_Version = v\<rparr>]
           | _ \<Rightarrow> Inl ''not pinned'')
      | None \<Rightarrow> Inl ''not pinned'')"

definition demo_env :: env where
  "demo_env =
     \<lparr>Getwd = Inr ''/go/src/me/proj'',
      GOPATH = ''/go'',
      NewSourceManager = None,
      DeduceProjectRoot = (\<lambda>pkg. Inr pkg),
      ListVersions = (\<lambda>pi. Inr [PairedVersion ''v1'' ''1111111aaa'',
                                 PairedVersion ''v2'' ''2222222bbb'',
                                 PairedVersion ''v3'' ''3333333ccc'']),
      SortForUpgrade = rev,
      NewSemverConstraint = (\<lambda>s. Inr (SemverConstraint s)),
      Matches = demo_Matches,
      DeriveManifestAndLock = (\<lambda>wd importroot. Inr (Some demo_manifest, None)),
      Prepare = (\<lambda>ps. None),
      Solve = demo_Solve,
      WriteDepTree = (\<lambda>basedir s cur. (None, Some [(''github.com/foo/bar/bar.go'', ''package bar'')])),
      CombinedOutput = (\<lambda>name args dir d. ((''ok'', None), d)),
      RemoveAll = (\<lambda>p cur. None)\<rparr>"

definition demo_flags :: flags where
  "demo_flags = \<lparr>run = ''go test'', branch = '''', semver = '''', version = '''', verbose = False\<rparr>"

definition demo_world :: world where
  "demo_world =
     \<lparr>disk = (\<lambda>p. None)(''/go/src/me/proj/vendor'' \<mapsto> [(''old/dep.go'', ''package old'')]),
      calls = [], stdout = []\<rparr>"

definition demo_soln :: solnOrErr where
  "demo_soln =
     \<lparr>soe_v = PairedVersion ''v1'' ''1111111aaa'',
      soe_s = Some [\<lparr>lp_Ident = \<lparr>ProjectRoot = ''github.com/foo/bar'', NetworkName = ''''\<rparr>,
                     lp_Version = PairedVersion ''v1'' ''1111111aaa''\<rparr>],
      soe_err = None\<rparr>"

text \<open>The same, except that the tree for the solution with v2 cannot be written.\<close>

definition demo_env_v2_unwritable :: env where
  "demo_env_v2_unwritable =
     demo_env\<lparr>WriteDepTree := (\<lambda>basedir s cur.
        if map (map lp_Version) (case s of None \<Rightarrow> [] | Some x \<Rightarrow> [x])
             = [[PairedVersion ''v2'' ''2222222bbb'']]
        then (Some ''export failed'', None)
        else (None, Some [(''github.com/foo/bar/bar.go'', ''package bar'')]))\<rparr>"

text \<open>The parameters the solver is given for a candidate in the concrete run.\<close>

definition demo_ps :: "version \<Rightarrow> solveParameters" where
  "demo_ps v =
     \<lparr>Manifest =
        \<lparr>rm_c = GoMap
           [(''github.com/foo/bar'',
             \<lparr>Ident = \<lparr>ProjectRoot = ''github.com/foo/bar'', NetworkName = ''''\<rparr>,
              Constraint = IsVersion v\<rparr>),
            (''github.com/baz/qux'',
             \<lparr>Ident = \<lparr>ProjectRoot = ''github.com/baz/qux'', NetworkName = ''''\<rparr>,
              Constraint = NewVersion ''v3''\<rparr>)],
         rm_tc = GoMap [], rm_ovr = NilMap, rm_ig = NilMap\<rparr>,
      Lock = None, RootDir = ''/go/src/me/proj'', ImportRoot = ''me/proj'', Trace = True\<rparr>"

subsection \<open>A catalog of semantic versions\<close>







section \<open>The baseline builder\<close>

lemma set_each_GoMap:
  "set_each (GoMap al) ds =
     Inr (GoMap (foldl (\<lambda>a d. AList.update (ProjectRoot (Ident d)) d a) al ds))"
  by (induction ds arbitrary: al) simp_all

lemma find_append_cases:
  "List.find P (xs @ ys) = (case List.find P xs of None \<Rightarrow> List.find P ys | Some x \<Rightarrow> Some x)"
  by (induction xs) simp_all

lemma map_of_foldl_update:
  "map_of (foldl (\<lambda>a d. AList.update (ProjectRoot (Ident d)) d a) al ds) k =
     (case List.find (\<lambda>d. ProjectRoot (Ident d) = k) (rev ds) of
        Some d \<Rightarrow> Some d
      | None \<Rightarrow> map_of al k)"
proof (induction ds arbitrary: al)
  case Nil
  show ?case by simp
next
  case (Cons d ds)
  show ?case
    by (simp add: Cons.IH find_append_cases update_conv' split: option.splits)
qed

lemma prepManifest_Some:
  "prepManifest (Some mf) =
     Inr \<lparr>rm_c = GoMap (foldl (\<lambda>a d. AList.update (ProjectRoot (Ident d)) d a) []
                          (m_DependencyConstraints mf)),
          rm_tc = GoMap (foldl (\<lambda>a d. AList.update (ProjectRoot (Ident d)) d a) []
                          (m_TestDependencyConstraints mf)),
          rm_ovr = NilMap, rm_ig = NilMap\<rparr>"
  by (simp add: prepManifest_def make_map_def set_each_GoMap)

text \<open>
  C5 (as amended). The builder copies the manifest's normal constraints into one map
  and its test-only constraints into another, each keyed by the entry's project root.
  Where several entries of a list have the same root, the entry kept is the last one of
  that list, whole (the earlier ones are overwritten, nothing is merged); the two
  groups do not affect each other.
\<close>

theorem prepManifest_last_wins:
  "\<exists>rm. prepManifest (Some mf) = Inr rm
     \<and> (\<forall>k. gm_lookup (rm_c rm) k =
            List.find (\<lambda>d. ProjectRoot (Ident d) = k) (rev (m_DependencyConstraints mf)))
     \<and> (\<forall>k. gm_lookup (rm_tc rm) k =
            List.find (\<lambda>d. ProjectRoot (Ident d) = k) (rev (m_TestDependencyConstraints mf)))"
  by (simp add: prepManifest_Some map_of_foldl_update split: option.splits)

theorem prepManifest_last_wins_witness:
  "\<exists>rm. prepManifest (Some \<lparr>m_DependencyConstraints =
             [\<lparr>Ident = \<lparr>ProjectRoot = ''github.com/foo/bar'', NetworkName = ''''\<rparr>,
               Constraint = NewVersion ''1.0''\<rparr>,
              \<lparr>Ident = \<lparr>ProjectRoot = ''github.com/foo/bar'', NetworkName = ''''\<rparr>,
               Constraint = NewBranch ''master''\<rparr>],
            m_TestDependencyConstraints = []\<rparr>) = Inr rm
     \<and> gm_lookup (rm_c rm) ''github.com/foo/bar'' =
         Some \<lparr>Ident = \<lparr>ProjectRoot = ''github.com/foo/bar'', NetworkName = ''''\<rparr>,
               Constraint = NewBranch ''master''\<rparr>
     \<and> gm_lookup (rm_tc rm) ''github.com/foo/bar'' = None"
  using prepManifest_last_wins
    [of "\<lparr>m_DependencyConstraints =
             [\<lparr>Ident = \<lparr>ProjectRoot = ''github.com/foo/bar'', NetworkName = ''''\<rparr>,
               Constraint = NewVersion ''1.0''\<rparr>,
              \<lparr>Ident = \<lparr>ProjectRoot = ''github.com/foo/bar'', NetworkName = ''''\<rparr>,
               Constraint = NewBranch ''master''\<rparr>],
            m_TestDependencyConstraints = []\<rparr>"]
  by auto

text \<open>
  C5 as the specification states it (the first occurrence is kept) fails: of two
  entries for \<open>github.com/foo/bar\<close>, the first pinned to version 1.0 and the second
  to branch master, the map holds the second.
\<close>

theorem prepManifest_first_wins_counterexample:
  "prepManifest (Some \<lparr>m_DependencyConstraints =
             [\<lparr>Ident = \<lparr>ProjectRoot = ''github.com/foo/bar'', NetworkName = ''''\<rparr>,
               Constraint = NewVersion ''1.0''\<rparr>,
              \<lparr>Ident = \<lparr>ProjectRoot = ''github.com/foo/bar'', NetworkName = ''''\<rparr>,
               Constraint = NewBranch ''master''\<rparr>],
            m_TestDependencyConstraints = []\<rparr>)
   = Inr \<lparr>rm_c = GoMap [(''github.com/foo/bar'',
             \<lparr>Ident = \<lparr>ProjectRoot = ''github.com/foo/bar'', NetworkName = ''''\<rparr>,
              Constraint = NewBranch ''master''\<rparr>)],
          rm_tc = GoMap [], rm_ovr = NilMap, rm_ig = NilMap\<rparr>"
  by (simp add: prepManifest_def make_map_def)

text \<open>
  C10. For a nil manifest the builder does not fail: it returns a constraint set whose
  normal and test-only maps are allocated and empty, so looking the focal root up
  answers "absent" and assigning the focal entry succeeds (the assignment would panic
  on a nil map).
\<close>

theorem prepManifest_nil:
  "\<exists>rm. prepManifest None = Inr rm
     \<and> rm_c rm = GoMap [] \<and> rm_tc rm = GoMap []
     \<and> rm_c rm \<noteq> NilMap \<and> rm_tc rm \<noteq> NilMap
     \<and> gm_lookup (rm_c rm) root = None
     \<and> gm_set (rm_c rm) root focus = Inr (GoMap [(root, focus)])"
  by (simp add: prepManifest_def make_map_def)

theorem prepManifest_nil_witness:
  "\<exists>rm. prepManifest None = Inr rm
     \<and> rm_c rm = GoMap [] \<and> rm_tc rm = GoMap []
     \<and> rm_c rm \<noteq> NilMap \<and> rm_tc rm \<noteq> NilMap
     \<and> gm_lookup (rm_c rm) ''github.com/foo/bar'' = None
     \<and> gm_set (rm_c rm) ''github.com/foo/bar''
           \<lparr>Ident = \<lparr>ProjectRoot = ''github.com/foo/bar'', NetworkName = ''''\<rparr>,
            Constraint = Any\<rparr>
         = Inr (GoMap [(''github.com/foo/bar'',
             \<lparr>Ident = \<lparr>ProjectRoot = ''github.com/foo/bar'', NetworkName = ''''\<rparr>,
              Constraint = Any\<rparr>)])"
  using prepManifest_nil
    [of "''github.com/foo/bar''"
        "\<lparr>Ident = \<lparr>ProjectRoot = ''github.com/foo/bar'', NetworkName = ''''\<rparr>,
          Constraint = Any\<rparr>"]
  by simp

section \<open>The godep loader\<close>

lemma godep_loop_inv:
  "godep_loop N ds seen m l =
     (m @ map (\<lambda>p. \<lparr>cfg_Name = fst p, cfg_Version = ''''\<rparr>)
            (keep_first (filter (\<lambda>p. fst p \<notin> seen) (pins N ds))),
      l\<lparr>Imports := Imports l @ map (\<lambda>p. \<lparr>lock_Name = fst p, lock_Revision = snd p\<rparr>)
            (keep_first (filter (\<lambda>p. fst p \<notin> seen) (pins N ds)))\<rparr>)"
proof (induction ds arbitrary: seen m l)
  case Nil
  show ?case by (simp add: pins_def)
next
  case (Cons d ds)
  have p: "pins N (d # ds) = (fst (N (dep_ImportPath d)), dep_Rev d) # pins N ds"
    by (simp add: pins_def)
  show ?case
    by (simp add: Cons.IH p Let_def conj_commute)
qed

lemma remdups_snoc:
  "remdups (ys @ [a]) = remdups (filter (\<lambda>k. k \<noteq> a) ys) @ [a]"
  by (induction ys) auto

lemma keep_first_keys:
  "map fst (keep_first xs) = rev (remdups (rev (map fst xs)))"
proof (induction xs rule: keep_first.induct)
  case 1
  show ?case by simp
next
  case (2 x xs)
  have "map fst (filter (\<lambda>y. fst y \<noteq> fst x) xs) = filter (\<lambda>k. k \<noteq> fst x) (map fst xs)"
    by (induction xs) auto
  then show ?case
    using 2 by (simp add: remdups_snoc rev_filter)
qed

lemma map_of_keep_first: "map_of (keep_first xs) = map_of xs"
proof (induction xs rule: keep_first.induct)
  case 1
  show ?case by simp
next
  case (2 x xs)
  have "map_of (filter (\<lambda>y. fst y \<noteq> fst x) xs) k = map_of xs k" if "k \<noteq> fst x" for k
    using that by (induction xs) auto
  then show ?case
    using 2 by (cases x) (auto simp: fun_eq_iff)
qed

text \<open>
  C8. For every import list that decodes, the loader returns a manifest list and a
  lock built from the same entries: the import paths are normalised, only the first
  entry per normalised identifier is kept (in the order of first occurrence, later
  ones dropped without an error), each kept entry gives a manifest dependency with the
  identifier and no version, and a lock entry with the identifier and the revision
  pinned by that first entry.
\<close>

theorem AsMetadataPair_first_wins:
  assumes "file (filepath_Join dir ''Godeps/Godeps.json'') = Decodes g"
  shows "\<exists>m l. AsMetadataPair N file dir = Inr (m, l)
     \<and> m = map (\<lambda>p. \<lparr>cfg_Name = fst p, cfg_Version = ''''\<rparr>) (keep_first (pins N (Deps g)))
     \<and> Imports l = map (\<lambda>p. \<lparr>lock_Name = fst p, lock_Revision = snd p\<rparr>)
                      (keep_first (pins N (Deps g)))
     \<and> map cfg_Name m = rev (remdups (rev (map fst (pins N (Deps g)))))
     \<and> map lock_Name (Imports l) = map cfg_Name m
     \<and> map cfg_Version m = replicate (length m) ''''
     \<and> map_of (map (\<lambda>e. (lock_Name e, lock_Revision e)) (Imports l)) = map_of (pins N (Deps g))"
proof -
  let ?ks = "keep_first (pins N (Deps g))"
  have run: "AsMetadataPair N file dir =
      Inr (map (\<lambda>p. \<lparr>cfg_Name = fst p, cfg_Version = ''''\<rparr>) ?ks,
           \<lparr>Imports = map (\<lambda>p. \<lparr>lock_Name = fst p, lock_Revision = snd p\<rparr>) ?ks\<rparr>)"
    using assms by (simp add: AsMetadataPair_def godep_loop_inv)
  have names: "map cfg_Name (map (\<lambda>p. \<lparr>cfg_Name = fst p, cfg_Version = ''''\<rparr>) ?ks) = map fst ?ks"
    by (simp add: comp_def)
  have locks: "map lock_Name (map (\<lambda>p. \<lparr>lock_Name = fst p, lock_Revision = snd p\<rparr>) ?ks) = map fst ?ks"
    by (simp add: comp_def)
  have vers: "map cfg_Version (map (\<lambda>p. \<lparr>cfg_Name = fst p, cfg_Version = ''''\<rparr>) ?ks)
      = replicate (length ?ks) ''''"
    by (simp add: comp_def map_replicate_const)
  have pairs: "map (\<lambda>e. (lock_Name e, lock_Revision e))
      (map (\<lambda>p. \<lparr>lock_Name = fst p, lock_Revision = snd p\<rparr>) ?ks) = ?ks"
    by (simp add: comp_def)
  show ?thesis
    unfolding run
    using names locks vers pairs keep_first_keys [of "pins N (Deps g)"]
      map_of_keep_first [of "pins N (Deps g)"]
    by simp
qed

theorem AsMetadataPair_first_wins_witness:
  "\<exists>m l. AsMetadataPair (\<lambda>p. (takeWhile (\<lambda>c. c \<noteq> CHR ''/'') p, ''''))
       (\<lambda>path. Decodes \<lparr>ImportPath = ''me'', GoVersion = ''go1.6'', Packages = [],
          Deps = [\<lparr>dep_ImportPath = ''a/x'', dep_Comment = '''', dep_Rev = ''r1''\<rparr>,
                  \<lparr>dep_ImportPath = ''b'', dep_Comment = '''', dep_Rev = ''r2''\<rparr>,
                  \<lparr>dep_ImportPath = ''a/y'', dep_Comment = '''', dep_Rev = ''r3''\<rparr>],
          outerRoot = ''''\<rparr>) ''proj'' = Inr (m, l)
     \<and> m = [\<lparr>cfg_Name = ''a'', cfg_Version = ''''\<rparr>, \<lparr>cfg_Name = ''b'', cfg_Version = ''''\<rparr>]
     \<and> Imports l = [\<lparr>lock_Name = ''a'', lock_Revision = ''r1''\<rparr>,
                    \<lparr>lock_Name = ''b'', lock_Revision = ''r2''\<rparr>]"
  using AsMetadataPair_first_wins
    [of "\<lambda>path. Decodes \<lparr>ImportPath = ''me'', GoVersion = ''go1.6'', Packages = [],
          Deps = [\<lparr>dep_ImportPath = ''a/x'', dep_Comment = '''', dep_Rev = ''r1''\<rparr>,
                  \<lparr>dep_ImportPath = ''b'', dep_Comment = '''', dep_Rev = ''r2''\<rparr>,
                  \<lparr>dep_ImportPath = ''a/y'', dep_Comment = '''', dep_Rev = ''r3''\<rparr>],
          outerRoot = ''''\<rparr>" "''proj''" _ "\<lambda>p. (takeWhile (\<lambda>c. c \<noteq> CHR ''/'') p, '''')"]
  by (auto simp: pins_def)

section \<open>The log and the disk\<close>

lemma emit_simps [simp]:
  "disk (emit l w) = disk w" "calls (emit l w) = calls w" "stdout (emit l w) = stdout w @ [l]"
  by (simp_all add: emit_def)

lemma record_call_simps [simp]:
  "disk (record_call c w) = disk w" "calls (record_call c w) = calls w @ [(c, disk w)]"
  "stdout (record_call c w) = stdout w"
  by (simp_all add: record_call_def)

subsection \<open>Without a validation command\<close>

lemma check_one_no_run:
  "run fl = [] \<Longrightarrow> check_one e fl root wd vpath soln (fail, w) = (fail', w')
     \<Longrightarrow> disk w' = disk w \<and> calls w' = calls w"
  by (auto simp: check_one_def split: option.splits)

lemma check_all_no_run:
  "run fl = [] \<Longrightarrow> check_all e fl root wd vpath solns (fail, w) = (fail', w')
     \<Longrightarrow> disk w' = disk w \<and> calls w' = calls w"
proof (induction solns arbitrary: fail w)
  case Nil
  then show ?case by simp
next
  case (Cons s solns)
  obtain f1 w1 where one: "check_one e fl root wd vpath s (fail, w) = (f1, w1)"
    by (cases "check_one e fl root wd vpath s (fail, w)")
  with Cons.prems have "check_all e fl root wd vpath solns (f1, w1) = (fail', w')"
    by simp
  with Cons.IH Cons.prems(1) have "disk w' = disk w1 \<and> calls w' = calls w1"
    by blast
  with check_one_no_run [OF Cons.prems(1) one] show ?case by simp
qed

lemma report_no_run:
  "run fl = [] \<Longrightarrow> report e fl root wd solns w = (r, w') \<Longrightarrow> disk w' = disk w \<and> calls w' = calls w"
  by (auto simp: report_def Let_def split: prod.splits dest: check_all_no_run)

lemma solve_one_calls:
  "solve_one e ps v w = (soe, w') \<Longrightarrow>
     disk w' = disk w \<and>
     (\<exists>cs. calls w' = calls w @ cs \<and> (\<forall>x\<in>set cs. is_solver_call (fst x) \<and> snd x = disk w))"
  by (auto simp: solve_one_def split: option.splits sum.splits)

lemma show_projects_frame:
  "show_projects ps w = (r, w') \<Longrightarrow> disk w' = disk w \<and> calls w' = calls w"
  by (induction ps arbitrary: w) (auto split: version.splits if_splits)

lemma show_outcome_frame:
  "show_outcome fl soe w = (r, w') \<Longrightarrow> disk w' = disk w \<and> calls w' = calls w"
  by (auto simp: show_outcome_def split: option.splits if_splits dest: show_projects_frame)

lemma sweep_step_calls:
  assumes "sweep_step e fl root params rm focus v w = (r, w')"
  shows "disk w' = disk w \<and>
     (\<exists>cs. calls w' = calls w @ cs \<and> (\<forall>x\<in>set cs. is_solver_call (fst x) \<and> snd x = disk w))"
proof (cases "gm_set (rm_c rm) root (focus\<lparr>Constraint := IsVersion v\<rparr>)")
  case (Inl p)
  with assms show ?thesis by (auto simp: sweep_step_def)
next
  case (Inr c')
  obtain soe w1 where s: "solve_one e (params\<lparr>Manifest := rm\<lparr>rm_c := c'\<rparr>\<rparr>) v
      (emit (LookingFor root v) w) = (soe, w1)"
    by (cases "solve_one e (params\<lparr>Manifest := rm\<lparr>rm_c := c'\<rparr>\<rparr>) v (emit (LookingFor root v) w)")
  obtain p w2 where o: "show_outcome fl soe w1 = (p, w2)"
    by (cases "show_outcome fl soe w1")
  from assms Inr s o have "w' = w2"
    by (auto simp: sweep_step_def split: option.splits)
  with solve_one_calls [OF s] show_outcome_frame [OF o] show ?thesis
    by simp
qed

lemma sweep_calls:
  "sweep e fl root params rm focus vl solns w = (r, w') \<Longrightarrow>
   disk w' = disk w \<and>
   (\<exists>cs. calls w' = calls w @ cs \<and> (\<forall>x\<in>set cs. is_solver_call (fst x) \<and> snd x = disk w))"
proof (induction vl arbitrary: rm focus solns w)
  case Nil
  then show ?case by simp
next
  case (Cons v vl)
  obtain r1 w1 where st: "sweep_step e fl root params rm focus v w = (r1, w1)"
    by (cases "sweep_step e fl root params rm focus v w")
  note h = sweep_step_calls [OF st]
  show ?case
  proof (cases r1)
    case (Inl p)
    with Cons.prems st h show ?thesis by auto
  next
    case (Inr x)
    obtain rm' focus' soe where x: "x = (rm', focus', soe)" by (cases x)
    with Cons.prems st Inr have "sweep e fl root params rm' focus' vl (solns @ [soe]) w1 = (r, w')"
      by simp
    from Cons.IH [OF this] h show ?thesis by auto
  qed
qed

text \<open>
  C9. With an empty \<^verbatim>\<open>--run\<close>, whatever the arguments, the collaborators and the
  outcome, RunGTA leaves the whole disk as it found it, and the only collaborator
  calls it logs are the solver's (no stat, no rename, no tree write, no command, no
  removal), each made with the disk unchanged.
\<close>

theorem RunGTA_no_run:
  assumes "run fl = []"
  shows "disk (snd (RunGTA e fl args w)) = disk w
     \<and> (\<exists>cs. calls (snd (RunGTA e fl args w)) = calls w @ cs
           \<and> (\<forall>x\<in>set cs. is_solver_call (fst x) \<and> snd x = disk w))"
proof (cases "run_setup e fl args")
  case (Done cx)
  let ?w1 = "emit (Checking (cx_root cx) (cx_vl cx)) w"
  obtain r2 w2 where sw: "sweep e fl (cx_root cx) (cx_params cx) (cx_rm cx) (cx_focus cx)
      (cx_vl cx) [] ?w1 = (r2, w2)"
    by (cases "sweep e fl (cx_root cx) (cx_params cx) (cx_rm cx) (cx_focus cx) (cx_vl cx) [] ?w1")
  note h = sweep_calls [OF sw]
  show ?thesis
  proof (cases r2)
    case (Inl p)
    with Done sw h show ?thesis by (simp add: RunGTA_def)
  next
    case (Inr solns)
    obtain r3 w3 where rp: "report e fl (cx_root cx) (cx_wd cx) solns (emit Spacer w2) = (r3, w3)"
      by (cases "report e fl (cx_root cx) (cx_wd cx) solns (emit Spacer w2)")
    from report_no_run [OF assms rp] Done sw Inr rp h show ?thesis
      by (simp add: RunGTA_def)
  qed
next
  case (Error err)
  then show ?thesis by (simp add: RunGTA_def)
next
  case (Panic p)
  then show ?thesis by (simp add: RunGTA_def)
qed

theorem RunGTA_no_run_witness:
  "run (demo_flags\<lparr>run := ''''\<rparr>) = []
   \<and> disk (snd (RunGTA demo_env (demo_flags\<lparr>run := ''''\<rparr>) [''github.com/foo/bar''] demo_world))
       = disk demo_world
   \<and> (\<exists>cs. calls (snd (RunGTA demo_env (demo_flags\<lparr>run := ''''\<rparr>) [''github.com/foo/bar'']
                        demo_world)) = calls demo_world @ cs
         \<and> list_all (\<lambda>x. is_solver_call (fst x) \<and> snd x = disk demo_world) cs)"
  using RunGTA_no_run [of "demo_flags\<lparr>run := ''''\<rparr>" demo_env "[''github.com/foo/bar'']" demo_world]
  by (simp add: list_all_iff)

section \<open>The validation command\<close>

lemma strings_Split_nonempty: "strings_Split s sep \<noteq> []"
  by (induction s) (auto split: list.splits)

lemma strings_Split_no_sep: "p \<in> set (strings_Split s sep) \<Longrightarrow> sep \<notin> set p"
  by (induction s arbitrary: p) (auto split: list.splits if_splits)

lemma strings_Join_Cons:
  "ps \<noteq> [] \<Longrightarrow> strings_Join (p # ps) sep = p @ sep @ strings_Join ps sep"
  by (cases ps) simp_all

lemma strings_Join_Split: "strings_Join (strings_Split s sep) [sep] = s"
proof (induction s)
  case Nil
  show ?case by simp
next
  case (Cons x xs)
  show ?case
  proof (cases "x = sep")
    case True
    with Cons show ?thesis
      by (simp add: strings_Join_Cons strings_Split_nonempty)
  next
    case False
    obtain p ps where sp: "strings_Split xs sep = p # ps"
      using strings_Split_nonempty [of xs sep] by (cases "strings_Split xs sep") auto
    with Cons False show ?thesis
      by (cases ps) auto
  qed
qed

text \<open>
  C7 (as amended). For a candidate with a solution, when a validation command was
  requested: the command line is cut at every single space byte and nowhere else (no
  token holds a space, and the tokens joined by single spaces give the command line
  back, so two spaces in a row give an empty argument and a tab stays inside its
  token; no quoting is interpreted). The tree is written first; if that fails the
  command is not run, the candidate is reported as skipped and the run is marked
  failed. If it succeeds the command runs once, with the first token as its name, the
  others as its arguments and RunGTA's working directory as its directory; the
  candidate is reported as succeeded exactly when the command returned no error;
  otherwise it is reported as failed with the error and the captured output, and the
  run is marked failed. After the command the removal of the tree is called; what
  stands at the vendor path then is what that removal left.
\<close>

theorem check_one_validation:
  assumes "soe_err soln = None" and "run fl \<noteq> []"
    and "check_one e fl root wd vpath soln (fail, w) = (fail', w')"
  shows "\<exists>name args. strings_Split (run fl) CHR '' '' = name # args
     \<and> strings_Join (name # args) '' '' = run fl
     \<and> list_all (\<lambda>p. CHR '' '' \<notin> set p) (name # args)
     \<and> (case WriteDepTree e vpath (soe_s soln) (disk w vpath) of
          (Some err, new) \<Rightarrow>
             fail' \<and> map fst (calls w') =
                      map fst (calls w) @ [CallWriteDepTree vpath (soe_s soln) (Some err)]
           \<and> stdout w' = stdout w @
                [SkippingCheck (root @ ''@'' @ version_String (soe_v soln)) err]
        | (None, new) \<Rightarrow>
            (case CombinedOutput e name args wd ((disk w)(vpath := new)) of
               ((out, err), d) \<Rightarrow>
                  fail' = (fail \<or> err \<noteq> None)
                \<and> map fst (calls w') = map fst (calls w) @
                     [CallWriteDepTree vpath (soe_s soln) None,
                      CallCommand name args wd out err,
                      CallRemoveAll vpath]
                \<and> stdout w' = stdout w @
                     [case err of
                        None \<Rightarrow> Succeeded (root @ ''@'' @ version_String (soe_v soln))
                      | Some x \<Rightarrow> FailedWith (root @ ''@'' @ version_String (soe_v soln)) x out]
                \<and> disk w' vpath = RemoveAll e vpath (d vpath)))"
proof -
  obtain name args where sp: "strings_Split (run fl) CHR '' '' = name # args"
    using strings_Split_nonempty [of "run fl" "CHR '' ''"]
    by (cases "strings_Split (run fl) CHR '' ''") auto
  have j: "strings_Join (name # args) '' '' = run fl"
    using strings_Join_Split [of "run fl" "CHR '' ''"] sp by simp
  have n: "list_all (\<lambda>p. CHR '' '' \<notin> set p) (name # args)"
    using strings_Split_no_sep [of _ "run fl" "CHR '' ''"] sp
    unfolding list_all_iff by metis
  have body: "case WriteDepTree e vpath (soe_s soln) (disk w vpath) of
          (Some err, new) \<Rightarrow>
             fail' \<and> map fst (calls w') =
                      map fst (calls w) @ [CallWriteDepTree vpath (soe_s soln) (Some err)]
           \<and> stdout w' = stdout w @
                [SkippingCheck (root @ ''@'' @ version_String (soe_v soln)) err]
        | (None, new) \<Rightarrow>
            (case CombinedOutput e name args wd ((disk w)(vpath := new)) of
               ((out, err), d) \<Rightarrow>
                  fail' = (fail \<or> err \<noteq> None)
                \<and> map fst (calls w') = map fst (calls w) @
                     [CallWriteDepTree vpath (soe_s soln) None,
                      CallCommand name args wd out err,
                      CallRemoveAll vpath]
                \<and> stdout w' = stdout w @
                     [case err of
                        None \<Rightarrow> Succeeded (root @ ''@'' @ version_String (soe_v soln))
                      | Some x \<Rightarrow> FailedWith (root @ ''@'' @ version_String (soe_v soln)) x out]
                \<and> disk w' vpath = RemoveAll e vpath (d vpath))"
    using assms sp
    by (auto simp: check_one_def gps_WriteDepTree_def exec_CombinedOutput_def os_RemoveAll_def
        split: prod.splits option.splits)
  show ?thesis
    by (rule exI [where x = name], rule exI [where x = args])
      (simp only: sp j n body simp_thms)
qed

theorem check_one_validation_witness:
  "soe_err demo_soln = None \<and> run demo_flags \<noteq> []
   \<and> strings_Split (run demo_flags) CHR '' '' = [''go'', ''test'']
   \<and> \<not> fst (check_one demo_env demo_flags ''github.com/foo/bar'' ''/go/src/me/proj''
              ''/go/src/me/proj/vendor'' demo_soln (False, demo_world))
   \<and> map fst (calls (snd (check_one demo_env demo_flags ''github.com/foo/bar''
              ''/go/src/me/proj'' ''/go/src/me/proj/vendor'' demo_soln (False, demo_world))))
       = [CallWriteDepTree ''/go/src/me/proj/vendor'' (soe_s demo_soln) None,
          CallCommand ''go'' [''test''] ''/go/src/me/proj'' ''ok'' None,
          CallRemoveAll ''/go/src/me/proj/vendor'']
   \<and> stdout (snd (check_one demo_env demo_flags ''github.com/foo/bar''
              ''/go/src/me/proj'' ''/go/src/me/proj/vendor'' demo_soln (False, demo_world)))
       = [Succeeded ''github.com/foo/bar@v1'']"
  using check_one_validation [OF _ _ surjective_pairing,
      of demo_soln demo_flags demo_env "''github.com/foo/bar''" "''/go/src/me/proj''"
         "''/go/src/me/proj/vendor''" False demo_world]
  by (simp add: demo_soln_def demo_flags_def demo_env_def demo_world_def)

text \<open>
  C7 as the specification states it (the command line is tokenized on whitespace)
  fails: for the command line \<open>go\<close>, two spaces, \<open>test\<close>, whitespace tokenizing gives
  the two tokens \<open>go\<close> and \<open>test\<close>, while the command that is run is \<open>go\<close> with an
  empty first argument and \<open>test\<close> as its second.
\<close>

theorem check_one_tokens_counterexample:
  "whitespace_fields ''go  test'' [] = [''go'', ''test'']
   \<and> map fst (calls (snd (check_one demo_env (demo_flags\<lparr>run := ''go  test''\<rparr>)
              ''github.com/foo/bar'' ''/go/src/me/proj'' ''/go/src/me/proj/vendor''
              demo_soln (False, demo_world))))
       = [CallWriteDepTree ''/go/src/me/proj/vendor'' (soe_s demo_soln) None,
          CallCommand ''go'' ['''', ''test''] ''/go/src/me/proj'' ''ok'' None,
          CallRemoveAll ''/go/src/me/proj/vendor'']"
  by (simp add: is_space_def check_one_def gps_WriteDepTree_def exec_CombinedOutput_def
      os_RemoveAll_def demo_soln_def demo_flags_def demo_env_def demo_world_def)

section \<open>The verdict\<close>

lemmas demo_defs = demo_env_def demo_flags_def demo_world_def demo_manifest_def demo_Solve_def
  demo_soln_def

lemmas RunGTA_defs = RunGTA_def run_setup_def parse_constraint_def prepManifest_def make_map_def
  init_focus_def filepath_Join_def filepath_ToSlash_def strings_TrimPrefix_def
  sweep_step_def solve_one_def show_outcome_def emit_def record_call_def report_def
  os_Stat_def os_Rename_def check_one_def gps_WriteDepTree_def exec_CombinedOutput_def
  os_RemoveAll_def verdict_def main_def before_report_def killed_after_def Let_def

lemma check_one_fail:
  assumes "check_one e fl root wd vpath soln (fail, w) = (fail', w')"
  shows "\<exists>cs. calls w' = calls w @ cs
     \<and> (fail' \<longleftrightarrow> fail \<or> soe_err soln \<noteq> None \<or> (\<exists>x\<in>set cs. is_failed_check (fst x)))
     \<and> (\<forall>x\<in>set cs. \<forall>a b r. fst x \<noteq> CallRename a b r)"
  using assms
  by (auto simp: check_one_def gps_WriteDepTree_def exec_CombinedOutput_def os_RemoveAll_def
      split: prod.splits option.splits if_splits)

lemma check_all_fail:
  "check_all e fl root wd vpath solns (fail, w) = (fail', w') \<Longrightarrow>
   \<exists>cs. calls w' = calls w @ cs
     \<and> (fail' \<longleftrightarrow> fail \<or> (\<exists>s\<in>set solns. soe_err s \<noteq> None) \<or> (\<exists>x\<in>set cs. is_failed_check (fst x)))
     \<and> (\<forall>x\<in>set cs. \<forall>a b r. fst x \<noteq> CallRename a b r)"
proof (induction solns arbitrary: fail w)
  case Nil
  then show ?case by simp
next
  case (Cons s solns)
  obtain f1 w1 where one: "check_one e fl root wd vpath s (fail, w) = (f1, w1)"
    by (cases "check_one e fl root wd vpath s (fail, w)")
  with Cons.prems have rest: "check_all e fl root wd vpath solns (f1, w1) = (fail', w')"
    by simp
  from check_one_fail [OF one] obtain cs1 where
    c1: "calls w1 = calls w @ cs1"
    and f1: "f1 \<longleftrightarrow> fail \<or> soe_err s \<noteq> None \<or> (\<exists>x\<in>set cs1. is_failed_check (fst x))"
    and n1: "\<forall>x\<in>set cs1. \<forall>a b r. fst x \<noteq> CallRename a b r"
    by blast
  from Cons.IH [OF rest] obtain cs2 where
    c2: "calls w' = calls w1 @ cs2"
    and f2: "fail' \<longleftrightarrow> f1 \<or> (\<exists>s\<in>set solns. soe_err s \<noteq> None) \<or> (\<exists>x\<in>set cs2. is_failed_check (fst x))"
    and n2: "\<forall>x\<in>set cs2. \<forall>a b r. fst x \<noteq> CallRename a b r"
    by blast
  have "calls w' = calls w @ (cs1 @ cs2)" using c1 c2 by simp
  moreover have "fail' \<longleftrightarrow> fail \<or> (\<exists>s\<in>set (s # solns). soe_err s \<noteq> None)
      \<or> (\<exists>x\<in>set (cs1 @ cs2). is_failed_check (fst x))"
    using f1 f2 by auto
  moreover have "\<forall>x\<in>set (cs1 @ cs2). \<forall>a b r. fst x \<noteq> CallRename a b r"
    using n1 n2 by auto
  ultimately show ?case by blast
qed

lemma os_Rename_calls:
  "os_Rename a b w = (r, w') \<Longrightarrow> calls w' = calls w @ [(CallRename a b r, disk w')]"
  by (auto simp: os_Rename_def split: option.splits)

lemma os_Stat_calls:
  "os_Stat p w = (r, w') \<Longrightarrow> calls w' = calls w @ [(CallStat p r, disk w')] \<and> disk w' = disk w"
  by (auto simp: os_Stat_def)

lemma report_verdict:
  assumes "report e fl root wd solns w = (r, w')"
  shows "\<exists>cs. calls w' = calls w @ cs
     \<and> (r = Done () \<or> r = Error EncounteredErrors \<or> (\<exists>err. r = Error (BackupFailed err)))
     \<and> ((\<exists>err. r = Error (BackupFailed err)) \<longleftrightarrow>
          (\<exists>x\<in>set cs. \<exists>err. fst x = CallRename (filepath_Join wd ''vendor'')
                                   (filepath_Join wd ''_origvendor'') (Some err)))
     \<and> ((\<forall>err. r \<noteq> Error (BackupFailed err)) \<longrightarrow>
          (r = Error EncounteredErrors \<longleftrightarrow>
             (\<exists>s\<in>set solns. soe_err s \<noteq> None) \<or> (\<exists>x\<in>set cs. is_failed_check (fst x))))
     \<and> (run fl = [] \<longrightarrow> cs = [])"
proof -
  let ?vp = "filepath_Join wd ''vendor''" and ?bp = "filepath_Join wd ''_origvendor''"
  have ne: "?bp \<noteq> ?vp" by (simp add: filepath_Join_def)
  show ?thesis
  proof (cases "run fl = []")
    case True
    obtain f3 w3 where ca: "check_all e fl root wd ?vp solns (False, w) = (f3, w3)"
      by (cases "check_all e fl root wd ?vp solns (False, w)")
    from check_all_fail [OF ca] obtain cs where
      cs: "calls w3 = calls w @ cs"
        "f3 \<longleftrightarrow> False \<or> (\<exists>s\<in>set solns. soe_err s \<noteq> None) \<or> (\<exists>x\<in>set cs. is_failed_check (fst x))"
      by blast
    from check_all_no_run [OF True ca] cs(1) have e: "cs = []" by simp
    from assms True ca have r: "r = verdict f3" "w' = w3"
      by (auto simp: report_def)
    have "calls w' = calls w @ []" using r cs e by simp
    with r cs e True show ?thesis
      by (auto simp: verdict_def)
  next
    case False
    obtain ex w1 where st: "os_Stat ?vp w = (ex, w1)" by (cases "os_Stat ?vp w")
    note s1 = os_Stat_calls [OF st]
    show ?thesis
    proof (cases ex)
      case nex: False
      obtain f3 w3 where ca: "check_all e fl root wd ?vp solns (False, w1) = (f3, w3)"
        by (cases "check_all e fl root wd ?vp solns (False, w1)")
      from check_all_fail [OF ca] obtain cs where
        cs: "calls w3 = calls w1 @ cs"
          "f3 \<longleftrightarrow> False \<or> (\<exists>s\<in>set solns. soe_err s \<noteq> None) \<or> (\<exists>x\<in>set cs. is_failed_check (fst x))"
          "\<forall>x\<in>set cs. \<forall>a b r. fst x \<noteq> CallRename a b r"
        by blast
      from assms False st nex ca have r: "r = verdict f3" "w' = w3"
        by (auto simp: report_def)
      have "calls w' = calls w @ ((CallStat ?vp ex, disk w1) # cs)"
        using r cs s1 by simp
      with r cs False show ?thesis
        by (auto simp: verdict_def)
    next
      case yex: True
      obtain b w2 where rn: "os_Rename ?vp ?bp w1 = (b, w2)" by (cases "os_Rename ?vp ?bp w1")
      note s2 = os_Rename_calls [OF rn]
      show ?thesis
      proof (cases b)
        case (Some err)
        with assms False st yex rn have r: "r = Error (BackupFailed err)" "w' = w2"
          by (auto simp: report_def)
        have "calls w' = calls w @ [(CallStat ?vp ex, disk w1), (CallRename ?vp ?bp (Some err), disk w2)]"
          using r s1 s2 Some by simp
        with r False show ?thesis by auto
      next
        case None
        obtain f3 w3 where ca: "check_all e fl root wd ?vp solns (False, w2) = (f3, w3)"
          by (cases "check_all e fl root wd ?vp solns (False, w2)")
        from check_all_fail [OF ca] obtain cs where
          cs: "calls w3 = calls w2 @ cs"
            "f3 \<longleftrightarrow> False \<or> (\<exists>s\<in>set solns. soe_err s \<noteq> None) \<or> (\<exists>x\<in>set cs. is_failed_check (fst x))"
            "\<forall>x\<in>set cs. \<forall>a b r. fst x \<noteq> CallRename a b r"
          by blast
        obtain b4 w4 where rs: "os_Rename ?bp ?vp w3 = (b4, w4)" by (cases "os_Rename ?bp ?vp w3")
        note s4 = os_Rename_calls [OF rs]
        from assms False st yex rn None ca rs have r: "r = verdict f3" "w' = w4"
          by (auto simp: report_def)
        have "calls w' = calls w @ ((CallStat ?vp ex, disk w1) # (CallRename ?vp ?bp None, disk w2)
            # cs @ [(CallRename ?bp ?vp b4, disk w4)])"
          using r cs s1 s2 s4 None by simp
        with r cs False ne show ?thesis
          by (auto simp: verdict_def)
      qed
    qed
  qed
qed

lemma run_setup_errors:
  "run_setup e fl args = Error err \<Longrightarrow> err \<noteq> EncounteredErrors \<and> (\<forall>x. err \<noteq> BackupFailed x)"
  by (auto simp: run_setup_def parse_constraint_def Let_def
      split: list.splits sum.splits option.splits if_splits prod.splits)

lemma RunGTA_before_report:
  "before_report e fl args w = Some (cx, solns, w2) \<Longrightarrow>
     RunGTA e fl args w = report e fl (cx_root cx) (cx_wd cx) solns w2"
  by (auto simp: before_report_def RunGTA_def split: res.splits prod.splits sum.splits)

lemma RunGTA_stopped:
  "before_report e fl args w = None \<Longrightarrow> RunGTA e fl args w = (r, w') \<Longrightarrow>
     r \<noteq> Done () \<and> r \<noteq> Error EncounteredErrors \<and> (\<forall>x. r \<noteq> Error (BackupFailed x))"
  by (auto simp: before_report_def RunGTA_def split: res.splits prod.splits sum.splits
      dest: run_setup_errors)

text \<open>
  C2 (as amended). RunGTA returns nil (verdict Pass) or the error "Encountered one or
  more errors" (verdict Fail) exactly when it got as far as the report loop and the
  backup of the vendor directory, if one was due, did not fail. Then the verdict is
  Fail if and only if at least one outcome record of the sweep holds a solver error,
  or a check failed: the tree of some solution could not be written, or the
  validation command failed for some solution (both can only happen when a command
  was requested). In every other run RunGTA returns another error or panics. The exit
  status of the process is 0 when RunGTA returned nil, 1 when it returned any error
  (the verdict Fail among them) and 2 when it panicked.
\<close>

theorem RunGTA_verdict:
  assumes "RunGTA e fl args w = (r, w')"
  shows "fst (main e fl args w) = (case r of Done u \<Rightarrow> 0 | Error err \<Rightarrow> 1 | Panic p \<Rightarrow> 2)
     \<and> (case before_report e fl args w of
          None \<Rightarrow> r \<noteq> Done () \<and> r \<noteq> Error EncounteredErrors
        | Some (cx, solns, w2) \<Rightarrow>
            (\<exists>cs. calls w' = calls w2 @ cs
               \<and> (r = Done () \<or> r = Error EncounteredErrors \<or> (\<exists>err. r = Error (BackupFailed err)))
               \<and> ((\<exists>err. r = Error (BackupFailed err)) \<longleftrightarrow>
                    (\<exists>x\<in>set cs. \<exists>err. fst x = CallRename (filepath_Join (cx_wd cx) ''vendor'')
                        (filepath_Join (cx_wd cx) ''_origvendor'') (Some err)))
               \<and> ((\<forall>err. r \<noteq> Error (BackupFailed err)) \<longrightarrow>
                    (r = Error EncounteredErrors \<longleftrightarrow>
                       (\<exists>s\<in>set solns. soe_err s \<noteq> None) \<or> (\<exists>x\<in>set cs. is_failed_check (fst x))))
               \<and> (run fl = [] \<longrightarrow> cs = [])))"
proof -
  have m: "fst (main e fl args w) = (case r of Done u \<Rightarrow> 0 | Error err \<Rightarrow> 1 | Panic p \<Rightarrow> 2)"
    using assms by (simp add: main_def split: res.splits)
  show ?thesis
  proof (cases "before_report e fl args w")
    case None
    with RunGTA_stopped [OF None assms] m show ?thesis by simp
  next
    case (Some x)
    obtain cx solns w2 where x: "x = (cx, solns, w2)" by (cases x)
    from RunGTA_before_report [of e fl args w cx solns w2] Some x assms
    have "report e fl (cx_root cx) (cx_wd cx) solns w2 = (r, w')" by simp
    from report_verdict [OF this] m Some x show ?thesis by simp
  qed
qed

lemma demo_run_v1_result:
  "fst (RunGTA demo_env (demo_flags\<lparr>version := ''v1''\<rparr>) [''github.com/foo/bar''] demo_world) = Done ()"
  by (simp add: RunGTA_defs demo_defs)

lemma demo_run_result:
  "fst (RunGTA demo_env demo_flags [''github.com/foo/bar''] demo_world) = Error EncounteredErrors"
  by (simp add: RunGTA_defs demo_defs)

text \<open>
  The concrete run: v3 has no solution, so the run ends with verdict Fail and exit
  status 1; restricted to v1, it ends with verdict Pass and exit status 0.
\<close>

theorem RunGTA_verdict_witness:
  "fst (RunGTA demo_env demo_flags [''github.com/foo/bar''] demo_world) = Error EncounteredErrors
   \<and> fst (main demo_env demo_flags [''github.com/foo/bar''] demo_world) = 1
   \<and> fst (RunGTA demo_env (demo_flags\<lparr>version := ''v1''\<rparr>) [''github.com/foo/bar''] demo_world)
       = Done ()
   \<and> fst (main demo_env (demo_flags\<lparr>version := ''v1''\<rparr>) [''github.com/foo/bar''] demo_world) = 0"
  using RunGTA_verdict [OF surjective_pairing,
      of demo_env demo_flags "[''github.com/foo/bar'']" demo_world]
    RunGTA_verdict [OF surjective_pairing,
      of demo_env "demo_flags\<lparr>version := ''v1''\<rparr>" "[''github.com/foo/bar'']" demo_world]
  by (simp add: demo_run_result demo_run_v1_result)

lemma cex_verdict_result:
  "fst (RunGTA (demo_env\<lparr>WriteDepTree := (\<lambda>basedir s cur. (Some ''export failed'', None))\<rparr>)
        (demo_flags\<lparr>version := ''v1''\<rparr>) [''github.com/foo/bar''] demo_world)
     = Error EncounteredErrors"
  by (simp add: RunGTA_defs demo_defs)

lemma cex_verdict_stdout:
  "stdout (snd (RunGTA (demo_env\<lparr>WriteDepTree := (\<lambda>basedir s cur. (Some ''export failed'', None))\<rparr>)
        (demo_flags\<lparr>version := ''v1''\<rparr>) [''github.com/foo/bar''] demo_world))
     = [Checking ''github.com/foo/bar'' [PairedVersion ''v1'' ''1111111aaa''],
        LookingFor ''github.com/foo/bar'' (PairedVersion ''v1'' ''1111111aaa''),
        SolveSuccess, Spacer,
        SkippingCheck ''github.com/foo/bar@v1'' ''export failed'']"
  by (simp add: RunGTA_defs demo_defs)

lemma cex_verdict_calls:
  "filter is_command_call (map fst (calls (snd (RunGTA
        (demo_env\<lparr>WriteDepTree := (\<lambda>basedir s cur. (Some ''export failed'', None))\<rparr>)
        (demo_flags\<lparr>version := ''v1''\<rparr>) [''github.com/foo/bar''] demo_world)))) = []"
  by (simp add: RunGTA_defs demo_defs)

lemma cex_verdict_abort:
  "fst (RunGTA demo_env demo_flags [] demo_world) = Error SingleDependencyRequired"
  by (simp add: RunGTA_def run_setup_def)

lemma cex_verdict_exit:
  "fst (main demo_env demo_flags [] demo_world) = 1"
  by (simp add: main_def RunGTA_def run_setup_def)

text \<open>
  C2 as the specification states it fails: with the single candidate v1, which the
  solver solves, and a tree writer that fails, no solver error exists and the
  validation command is never run (so no validation result exists, failed or not), yet
  the verdict is Fail. And the exit status signals failure without a verdict Fail:
  called without an argument, RunGTA returns another error before any candidate is
  tried, and the exit status is 1.
\<close>

theorem RunGTA_verdict_counterexample:
  "fst (RunGTA (demo_env\<lparr>WriteDepTree := (\<lambda>basedir s cur. (Some ''export failed'', None))\<rparr>)
        (demo_flags\<lparr>version := ''v1''\<rparr>) [''github.com/foo/bar''] demo_world)
     = Error EncounteredErrors
   \<and> stdout (snd (RunGTA (demo_env\<lparr>WriteDepTree := (\<lambda>basedir s cur. (Some ''export failed'', None))\<rparr>)
        (demo_flags\<lparr>version := ''v1''\<rparr>) [''github.com/foo/bar''] demo_world))
     = [Checking ''github.com/foo/bar'' [PairedVersion ''v1'' ''1111111aaa''],
        LookingFor ''github.com/foo/bar'' (PairedVersion ''v1'' ''1111111aaa''),
        SolveSuccess, Spacer,
        SkippingCheck ''github.com/foo/bar@v1'' ''export failed'']
   \<and> filter is_command_call (map fst (calls (snd (RunGTA
        (demo_env\<lparr>WriteDepTree := (\<lambda>basedir s cur. (Some ''export failed'', None))\<rparr>)
        (demo_flags\<lparr>version := ''v1''\<rparr>) [''github.com/foo/bar''] demo_world)))) = []
   \<and> fst (RunGTA demo_env demo_flags [] demo_world) = Error SingleDependencyRequired
   \<and> fst (main demo_env demo_flags [] demo_world) = 1"
  by (intro conjI cex_verdict_result cex_verdict_stdout cex_verdict_calls cex_verdict_abort
      cex_verdict_exit)

section \<open>The vendor directory\<close>

lemma check_one_keeps_backup:
  assumes w: "\<forall>s cur err new. WriteDepTree e vp s cur = (Some err, new) \<longrightarrow> new = None"
    and r: "\<forall>cur. RemoveAll e vp cur = None"
    and c: "\<forall>name args d. snd (CombinedOutput e name args wd d) bp = d bp"
    and ne: "bp \<noteq> vp"
    and run: "check_one e fl root wd vp soln (fail, w0) = (fail', w')"
    and b: "disk w0 bp = Some t"
    and v: "disk w0 vp = None"
  shows "disk w' bp = Some t \<and> disk w' vp = None"
proof (cases "soe_err soln = None \<and> run fl \<noteq> []")
  case False
  with run b v show ?thesis
    by (auto simp: check_one_def split: option.splits if_splits)
next
  case True
  obtain err new where wr: "WriteDepTree e vp (soe_s soln) (disk w0 vp) = (err, new)"
    by (cases "WriteDepTree e vp (soe_s soln) (disk w0 vp)")
  show ?thesis
  proof (cases err)
    case (Some x)
    with w wr have "new = None" by blast
    with run True wr Some b ne show ?thesis
      by (auto simp: check_one_def gps_WriteDepTree_def)
  next
    case None
    let ?d1 = "(disk w0)(vp := new)"
    obtain out cerr d2 where co: "CombinedOutput e (hd (strings_Split (run fl) CHR '' ''))
        (tl (strings_Split (run fl) CHR '' '')) wd ?d1 = ((out, cerr), d2)"
      by (cases "CombinedOutput e (hd (strings_Split (run fl) CHR '' ''))
        (tl (strings_Split (run fl) CHR '' '')) wd ?d1") auto
    from c co have "d2 bp = ?d1 bp" by (metis snd_conv)
    with b ne have d2: "d2 bp = Some t" by simp
    from run True wr None co have "disk w' = d2(vp := RemoveAll e vp (d2 vp))"
      by (auto simp: check_one_def gps_WriteDepTree_def exec_CombinedOutput_def os_RemoveAll_def
          split: option.splits)
    with d2 ne r show ?thesis by simp
  qed
qed

lemma check_all_keeps_backup:
  assumes w: "\<forall>s cur err new. WriteDepTree e vp s cur = (Some err, new) \<longrightarrow> new = None"
    and r: "\<forall>cur. RemoveAll e vp cur = None"
    and c: "\<forall>name args d. snd (CombinedOutput e name args wd d) bp = d bp"
    and ne: "bp \<noteq> vp"
  shows "check_all e fl root wd vp solns (fail, w0) = (fail', w') \<Longrightarrow> disk w0 bp = Some t
     \<Longrightarrow> disk w0 vp = None
     \<Longrightarrow> disk w' bp = Some t \<and> disk w' vp = None"
proof (induction solns arbitrary: fail w0)
  case Nil
  then show ?case by simp
next
  case (Cons s solns)
  obtain f1 w1 where one: "check_one e fl root wd vp s (fail, w0) = (f1, w1)"
    by (cases "check_one e fl root wd vp s (fail, w0)")
  with Cons.prems have rest: "check_all e fl root wd vp solns (f1, w1) = (fail', w')"
    by simp
  from check_one_keeps_backup [OF w r c ne one Cons.prems(2) Cons.prems(3)]
  have "disk w1 bp = Some t" "disk w1 vp = None" by simp_all
  with Cons.IH [OF rest] show ?case by blast
qed

lemma report_restores:
  assumes w: "\<forall>s cur err new. WriteDepTree e (filepath_Join wd ''vendor'') s cur = (Some err, new)
        \<longrightarrow> new = None"
    and r: "\<forall>cur. RemoveAll e (filepath_Join wd ''vendor'') cur = None"
    and c: "\<forall>name args d. snd (CombinedOutput e name args wd d) (filepath_Join wd ''_origvendor'')
        = d (filepath_Join wd ''_origvendor'')"
    and run: "run fl \<noteq> []"
    and v: "disk w0 (filepath_Join wd ''vendor'') = Some t"
    and b: "disk w0 (filepath_Join wd ''_origvendor'') = None"
    and rep: "report e fl root wd solns w0 = (r, w')"
  shows "disk w' (filepath_Join wd ''vendor'') = Some t
     \<and> disk w' (filepath_Join wd ''_origvendor'') = None"
proof -
  let ?vp = "filepath_Join wd ''vendor''" and ?bp = "filepath_Join wd ''_origvendor''"
  have ne: "?bp \<noteq> ?vp" by (simp add: filepath_Join_def)
  let ?w1 = "record_call (CallStat ?vp True) w0"
  let ?w2 = "record_call (CallRename ?vp ?bp None) (?w1\<lparr>disk := (disk w0)(?vp := None, ?bp \<mapsto> t)\<rparr>)"
  have st: "os_Stat ?vp w0 = (True, ?w1)" using v by (simp add: os_Stat_def)
  have rn: "os_Rename ?vp ?bp ?w1 = (None, ?w2)" using v b by (simp add: os_Rename_def)
  obtain f3 w3 where ca: "check_all e fl root wd ?vp solns (False, ?w2) = (f3, w3)"
    by (cases "check_all e fl root wd ?vp solns (False, ?w2)")
  have "disk ?w2 ?bp = Some t" "disk ?w2 ?vp = None"
    using ne by simp_all
  from check_all_keeps_backup [OF w r c ne ca this]
  have d3: "disk w3 ?bp = Some t" "disk w3 ?vp = None" by simp_all
  from rep run st rn ca have "w' = snd (os_Rename ?bp ?vp w3)"
    by (simp add: report_def)
  with d3 ne show ?thesis
    by (auto simp: os_Rename_def)
qed

lemma run_setup_wd: "run_setup e fl args = Done cx \<Longrightarrow> Getwd e = Inr (cx_wd cx)"
  by (auto simp: run_setup_def Let_def split: list.splits sum.splits option.splits if_splits prod.splits)

text \<open>
  C1 (as amended). Take a run of RunGTA, left to return (with nil, with an error, or
  by a panic before the backup), in which a validation command was requested, a
  vendor directory stands in the working directory and nothing stands at the backup
  path \<open>_origvendor\<close> beside it. Suppose that a tree write that fails leaves nothing
  at the vendor path (not even an empty directory), that every removal of the vendor
  path succeeds, and that the validation command leaves the backup path alone. Then
  after the run the original tree stands at the vendor path again, unchanged, and
  nothing stands at the backup path: whether the arguments were refused, solving
  failed for some candidates, tree writes failed or the command failed.
\<close>

theorem RunGTA_restores_vendor:
  assumes wd: "Getwd e = Inr wd"
    and run: "run fl \<noteq> []"
    and v: "disk w (filepath_Join wd ''vendor'') = Some t"
    and b: "disk w (filepath_Join wd ''_origvendor'') = None"
    and wr: "\<forall>s cur err new. WriteDepTree e (filepath_Join wd ''vendor'') s cur = (Some err, new)
        \<longrightarrow> new = None"
    and rm: "\<forall>cur. RemoveAll e (filepath_Join wd ''vendor'') cur = None"
    and c: "\<forall>name args d. snd (CombinedOutput e name args wd d) (filepath_Join wd ''_origvendor'')
        = d (filepath_Join wd ''_origvendor'')"
  shows "disk (snd (RunGTA e fl args w)) (filepath_Join wd ''vendor'') = Some t
     \<and> disk (snd (RunGTA e fl args w)) (filepath_Join wd ''_origvendor'') = None"
proof (cases "run_setup e fl args")
  case (Done cx)
  from run_setup_wd [OF Done] wd have cwd: "cx_wd cx = wd" by simp
  let ?w1 = "emit (Checking (cx_root cx) (cx_vl cx)) w"
  obtain r2 w2 where sw: "sweep e fl (cx_root cx) (cx_params cx) (cx_rm cx) (cx_focus cx)
      (cx_vl cx) [] ?w1 = (r2, w2)"
    by (cases "sweep e fl (cx_root cx) (cx_params cx) (cx_rm cx) (cx_focus cx) (cx_vl cx) [] ?w1")
  from sweep_calls [OF sw] have d2: "disk w2 = disk w" by simp
  show ?thesis
  proof (cases r2)
    case (Inl p)
    with Done sw d2 v b show ?thesis by (simp add: RunGTA_def)
  next
    case (Inr solns)
    obtain r3 w3 where rp: "report e fl (cx_root cx) wd solns (emit Spacer w2) = (r3, w3)"
      by (cases "report e fl (cx_root cx) wd solns (emit Spacer w2)")
    have "disk (emit Spacer w2) (filepath_Join wd ''vendor'') = Some t"
      "disk (emit Spacer w2) (filepath_Join wd ''_origvendor'') = None"
      using d2 v b by simp_all
    from report_restores [OF wr rm c run this rp] Done sw Inr rp cwd show ?thesis
      by (simp add: RunGTA_def)
  qed
next
  case (Error err)
  with v b show ?thesis by (simp add: RunGTA_def)
next
  case (Panic p)
  with v b show ?thesis by (simp add: RunGTA_def)
qed

lemma wit_restore_stdout:
  "stdout (snd (RunGTA demo_env_v2_unwritable demo_flags [''github.com/foo/bar''] demo_world))
     = [Checking ''github.com/foo/bar''
          [PairedVersion ''v3'' ''3333333ccc'', PairedVersion ''v2'' ''2222222bbb'',
           PairedVersion ''v1'' ''1111111aaa''],
        LookingFor ''github.com/foo/bar'' (PairedVersion ''v3'' ''3333333ccc''), SolveFailed,
        LookingFor ''github.com/foo/bar'' (PairedVersion ''v2'' ''2222222bbb''), SolveSuccess,
        LookingFor ''github.com/foo/bar'' (PairedVersion ''v1'' ''1111111aaa''), SolveSuccess,
        Spacer,
        FailedSolving ''github.com/foo/bar@v3'' ''no solution'',
        SkippingCheck ''github.com/foo/bar@v2'' ''export failed'',
        Succeeded ''github.com/foo/bar@v1'']"
  by (simp add: RunGTA_defs demo_defs demo_env_v2_unwritable_def)

text \<open>
  The concrete run with the unwritable tree for v2: v3 fails solving, v2 is skipped,
  v1 passes its check, and the vendor directory is back as it was.
\<close>

theorem RunGTA_restores_vendor_witness:
  "Getwd demo_env_v2_unwritable = Inr ''/go/src/me/proj''
   \<and> run demo_flags \<noteq> []
   \<and> disk demo_world (filepath_Join ''/go/src/me/proj'' ''vendor'')
       = Some [(''old/dep.go'', ''package old'')]
   \<and> disk demo_world (filepath_Join ''/go/src/me/proj'' ''_origvendor'') = None
   \<and> WriteDepTree demo_env_v2_unwritable (filepath_Join ''/go/src/me/proj'' ''vendor'')
        (Some [\<lparr>lp_Ident = \<lparr>ProjectRoot = ''github.com/foo/bar'', NetworkName = ''''\<rparr>,
                lp_Version = PairedVersion ''v2'' ''2222222bbb''\<rparr>]) None
       = (Some ''export failed'', None)
   \<and> RemoveAll demo_env_v2_unwritable (filepath_Join ''/go/src/me/proj'' ''vendor'')
        (Some [(''github.com/foo/bar/bar.go'', ''package bar'')]) = None
   \<and> stdout (snd (RunGTA demo_env_v2_unwritable demo_flags [''github.com/foo/bar''] demo_world))
     = [Checking ''github.com/foo/bar''
          [PairedVersion ''v3'' ''3333333ccc'', PairedVersion ''v2'' ''2222222bbb'',
           PairedVersion ''v1'' ''1111111aaa''],
        LookingFor ''github.com/foo/bar'' (PairedVersion ''v3'' ''3333333ccc''), SolveFailed,
        LookingFor ''github.com/foo/bar'' (PairedVersion ''v2'' ''2222222bbb''), SolveSuccess,
        LookingFor ''github.com/foo/bar'' (PairedVersion ''v1'' ''1111111aaa''), SolveSuccess,
        Spacer,
        FailedSolving ''github.com/foo/bar@v3'' ''no solution'',
        SkippingCheck ''github.com/foo/bar@v2'' ''export failed'',
        Succeeded ''github.com/foo/bar@v1'']
   \<and> disk (snd (RunGTA demo_env_v2_unwritable demo_flags [''github.com/foo/bar''] demo_world))
        (filepath_Join ''/go/src/me/proj'' ''vendor'') = Some [(''old/dep.go'', ''package old'')]
   \<and> disk (snd (RunGTA demo_env_v2_unwritable demo_flags [''github.com/foo/bar''] demo_world))
        (filepath_Join ''/go/src/me/proj'' ''_origvendor'') = None"
proof -
  have h1: "Getwd demo_env_v2_unwritable = Inr ''/go/src/me/proj''"
    by (simp add: demo_env_v2_unwritable_def demo_env_def)
  have h2: "run demo_flags \<noteq> []" by (simp add: demo_flags_def)
  have h3: "disk demo_world (filepath_Join ''/go/src/me/proj'' ''vendor'')
       = Some [(''old/dep.go'', ''package old'')]"
    by (simp add: demo_world_def filepath_Join_def)
  have h4: "disk demo_world (filepath_Join ''/go/src/me/proj'' ''_origvendor'') = None"
    by (simp add: demo_world_def filepath_Join_def)
  have h5: "\<forall>s cur err new.
      WriteDepTree demo_env_v2_unwritable (filepath_Join ''/go/src/me/proj'' ''vendor'') s cur
        = (Some err, new) \<longrightarrow> new = None"
    by (simp add: demo_env_v2_unwritable_def demo_env_def)
  have h8: "\<forall>cur. RemoveAll demo_env_v2_unwritable (filepath_Join ''/go/src/me/proj'' ''vendor'') cur
      = None"
    by (simp add: demo_env_v2_unwritable_def demo_env_def)
  have h6: "\<forall>name args d. snd (CombinedOutput demo_env_v2_unwritable name args ''/go/src/me/proj'' d)
        (filepath_Join ''/go/src/me/proj'' ''_origvendor'')
      = d (filepath_Join ''/go/src/me/proj'' ''_origvendor'')"
    by (simp add: demo_env_v2_unwritable_def demo_env_def)
  have h7: "WriteDepTree demo_env_v2_unwritable (filepath_Join ''/go/src/me/proj'' ''vendor'')
        (Some [\<lparr>lp_Ident = \<lparr>ProjectRoot = ''github.com/foo/bar'', NetworkName = ''''\<rparr>,
                lp_Version = PairedVersion ''v2'' ''2222222bbb''\<rparr>]) None
       = (Some ''export failed'', None)"
    by (simp add: demo_env_v2_unwritable_def demo_env_def)
  from RunGTA_restores_vendor [OF h1 h2 h3 h4 h5 h8 h6, of "[''github.com/foo/bar'']"]
    h1 h2 h3 h4 h7 h8 wit_restore_stdout
  show ?thesis by blast
qed

lemma cex_kill_call:
  "fst (calls (snd (RunGTA demo_env demo_flags [''github.com/foo/bar''] demo_world)) ! 9)
     = CallCommand ''go'' [''test''] ''/go/src/me/proj'' ''ok'' None"
  by (simp add: RunGTA_defs demo_defs)

lemma cex_kill_vendor:
  "killed_after 9 (snd (RunGTA demo_env demo_flags [''github.com/foo/bar''] demo_world))
      ''/go/src/me/proj/vendor'' = Some [(''github.com/foo/bar/bar.go'', ''package bar'')]"
  by (simp add: RunGTA_defs demo_defs)

lemma cex_kill_backup:
  "killed_after 9 (snd (RunGTA demo_env demo_flags [''github.com/foo/bar''] demo_world))
      ''/go/src/me/proj/_origvendor'' = Some [(''old/dep.go'', ''package old'')]"
  by (simp add: RunGTA_defs demo_defs)

lemma cex_stale_result:
  "fst (RunGTA demo_env demo_flags [''github.com/foo/bar'']
      (demo_world\<lparr>disk := (disk demo_world)(''/go/src/me/proj/_origvendor'' \<mapsto>
          [(''stale.go'', ''package stale'')])\<rparr>))
    = Error (BackupFailed ''file exists'')"
  by (simp add: RunGTA_defs demo_defs)

lemma cex_stale_backup:
  "disk (snd (RunGTA demo_env demo_flags [''github.com/foo/bar'']
      (demo_world\<lparr>disk := (disk demo_world)(''/go/src/me/proj/_origvendor'' \<mapsto>
          [(''stale.go'', ''package stale'')])\<rparr>))) ''/go/src/me/proj/_origvendor''
    = Some [(''stale.go'', ''package stale'')]"
  by (simp add: RunGTA_defs demo_defs)

lemma cex_residue_vendor:
  "disk (snd (RunGTA
      (demo_env\<lparr>WriteDepTree := (\<lambda>basedir s cur. (Some ''export failed'', Some []))\<rparr>)
      demo_flags [''github.com/foo/bar''] demo_world)) ''/go/src/me/proj/vendor''
    = Some []"
  by (simp add: RunGTA_defs demo_defs)

lemma cex_residue_backup:
  "disk (snd (RunGTA
      (demo_env\<lparr>WriteDepTree := (\<lambda>basedir s cur. (Some ''export failed'', Some []))\<rparr>)
      demo_flags [''github.com/foo/bar''] demo_world)) ''/go/src/me/proj/_origvendor''
    = Some [(''old/dep.go'', ''package old'')]"
  by (simp add: RunGTA_defs demo_defs)

lemma cex_removal_vendor:
  "disk (snd (RunGTA (demo_env\<lparr>RemoveAll := (\<lambda>p cur. cur)\<rparr>)
      demo_flags [''github.com/foo/bar''] demo_world)) ''/go/src/me/proj/vendor''
    = Some [(''github.com/foo/bar/bar.go'', ''package bar'')]"
  by (simp add: RunGTA_defs demo_defs)

lemma cex_removal_backup:
  "disk (snd (RunGTA (demo_env\<lparr>RemoveAll := (\<lambda>p cur. cur)\<rparr>)
      demo_flags [''github.com/foo/bar''] demo_world)) ''/go/src/me/proj/_origvendor''
    = Some [(''old/dep.go'', ''package old'')]"
  by (simp add: RunGTA_defs demo_defs)

lemma cex_command_vendor:
  "disk (snd (RunGTA
      (demo_env\<lparr>CombinedOutput := (\<lambda>name args dir d.
          ((''cleaned'', None), d(''/go/src/me/proj/_origvendor'' := None)))\<rparr>)
      demo_flags [''github.com/foo/bar''] demo_world)) ''/go/src/me/proj/vendor'' = None"
  by (simp add: RunGTA_defs demo_defs)

text \<open>
  C1 as the specification states it fails, in five ways. (1) Abrupt termination: in
  the concrete run, call number 9 of the log is the validation command for v2; a
  process killed then leaves the tree written for v2 at the vendor path and the
  original tree at the backup path, since no deferred call runs. (2) A directory
  stands at the backup path before the run: the backup fails, RunGTA returns the
  error, and the backup path still exists afterwards. (3) A tree write fails and
  leaves the directory it made, empty: the loop skips the removal, the deferred
  rename is refused, and the run ends with the empty directory at the vendor path and
  the original at the backup path. (4) The validation command removes the backup
  path: nothing stands at the vendor path after the run. (5) The removal of the
  written tree fails (its error is dropped): the deferred rename is refused, and the
  run ends with the last written tree at the vendor path and the original at the
  backup path.
\<close>

theorem RunGTA_restores_vendor_counterexample:
  "fst (calls (snd (RunGTA demo_env demo_flags [''github.com/foo/bar''] demo_world)) ! 9)
     = CallCommand ''go'' [''test''] ''/go/src/me/proj'' ''ok'' None
   \<and> killed_after 9 (snd (RunGTA demo_env demo_flags [''github.com/foo/bar''] demo_world))
      ''/go/src/me/proj/vendor'' = Some [(''github.com/foo/bar/bar.go'', ''package bar'')]
   \<and> killed_after 9 (snd (RunGTA demo_env demo_flags [''github.com/foo/bar''] demo_world))
      ''/go/src/me/proj/_origvendor'' = Some [(''old/dep.go'', ''package old'')]
   \<and> fst (RunGTA demo_env demo_flags [''github.com/foo/bar'']
      (demo_world\<lparr>disk := (disk demo_world)(''/go/src/me/proj/_origvendor'' \<mapsto>
          [(''stale.go'', ''package stale'')])\<rparr>))
      = Error (BackupFailed ''file exists'')
   \<and> disk (snd (RunGTA demo_env demo_flags [''github.com/foo/bar'']
      (demo_world\<lparr>disk := (disk demo_world)(''/go/src/me/proj/_origvendor'' \<mapsto>
          [(''stale.go'', ''package stale'')])\<rparr>))) ''/go/src/me/proj/_origvendor''
      = Some [(''stale.go'', ''package stale'')]
   \<and> disk (snd (RunGTA
      (demo_env\<lparr>WriteDepTree := (\<lambda>basedir s cur. (Some ''export failed'', Some []))\<rparr>)
      demo_flags [''github.com/foo/bar''] demo_world)) ''/go/src/me/proj/vendor''
      = Some []
   \<and> disk (snd (RunGTA
      (demo_env\<lparr>WriteDepTree := (\<lambda>basedir s cur. (Some ''export failed'', Some []))\<rparr>)
      demo_flags [''github.com/foo/bar''] demo_world)) ''/go/src/me/proj/_origvendor''
      = Some [(''old/dep.go'', ''package old'')]
   \<and> disk (snd (RunGTA
      (demo_env\<lparr>CombinedOutput := (\<lambda>name args dir d.
          ((''cleaned'', None), d(''/go/src/me/proj/_origvendor'' := None)))\<rparr>)
      demo_flags [''github.com/foo/bar''] demo_world)) ''/go/src/me/proj/vendor'' = None
   \<and> disk (snd (RunGTA (demo_env\<lparr>RemoveAll := (\<lambda>p cur. cur)\<rparr>)
      demo_flags [''github.com/foo/bar''] demo_world)) ''/go/src/me/proj/vendor''
      = Some [(''github.com/foo/bar/bar.go'', ''package bar'')]
   \<and> disk (snd (RunGTA (demo_env\<lparr>RemoveAll := (\<lambda>p cur. cur)\<rparr>)
      demo_flags [''github.com/foo/bar''] demo_world)) ''/go/src/me/proj/_origvendor''
      = Some [(''old/dep.go'', ''package old'')]"
  by (intro conjI cex_kill_call cex_kill_vendor cex_kill_backup cex_stale_result
      cex_stale_backup cex_residue_vendor cex_residue_backup cex_command_vendor
      cex_removal_vendor cex_removal_backup)

section \<open>The version filter\<close>



lemma init_focus_Constraint [simp]: "Constraint (init_focus rm root c) = c"
  by (simp add: init_focus_def)







section \<open>The sweep and the baseline\<close>

lemma set_update_subset: "set (AList.update k v al) \<subseteq> insert (k, v) (set al)"
  by (induction al) auto

lemma update_focal_only:
  assumes "distinct (map fst al)"
    and "\<forall>p\<in>set al. ProjectRoot (Ident (snd p)) = fst p"
    and "ProjectRoot (Ident f) = root"
  shows "filter (\<lambda>d. ProjectRoot (Ident d) = root) (map snd (AList.update root f al)) = [f]"
  using assms
proof (induction al)
  case Nil
  then show ?case by simp
next
  case (Cons p al)
  show ?case
  proof (cases "fst p = root")
    case True
    with Cons.prems have "\<forall>q\<in>set al. ProjectRoot (Ident (snd q)) \<noteq> root"
      by (metis distinct.simps(2) image_eqI list.set_intros(2) list.simps(9) set_map)
    then have "filter (\<lambda>d. ProjectRoot (Ident d) = root) (map snd al) = []"
      by (auto simp: filter_empty_conv)
    with True Cons.prems(3) show ?thesis by (cases p) simp
  next
    case False
    with Cons.prems have "ProjectRoot (Ident (snd p)) \<noteq> root" by simp
    with False Cons show ?thesis by (cases p) simp
  qed
qed

lemma foldl_update_inv:
  "distinct (map fst al) \<Longrightarrow> \<forall>p\<in>set al. ProjectRoot (Ident (snd p)) = fst p \<Longrightarrow>
   distinct (map fst (foldl (\<lambda>a d. AList.update (ProjectRoot (Ident d)) d a) al ds))
   \<and> (\<forall>p\<in>set (foldl (\<lambda>a d. AList.update (ProjectRoot (Ident d)) d a) al ds).
         ProjectRoot (Ident (snd p)) = fst p)"
proof (induction ds arbitrary: al)
  case Nil
  then show ?case by simp
next
  case (Cons d ds)
  have "distinct (map fst (AList.update (ProjectRoot (Ident d)) d al))"
    using Cons.prems(1) by (rule distinct_update)
  moreover have "\<forall>p\<in>set (AList.update (ProjectRoot (Ident d)) d al). ProjectRoot (Ident (snd p)) = fst p"
    using Cons.prems(2) set_update_subset [of "ProjectRoot (Ident d)" d al] by auto
  ultimately show ?case using Cons.IH by simp
qed

lemma prepManifest_inv:
  assumes "prepManifest m = Inr rm"
  shows "\<exists>al. rm_c rm = GoMap al \<and> distinct (map fst al)
     \<and> (\<forall>p\<in>set al. ProjectRoot (Ident (snd p)) = fst p)"
proof (cases m)
  case None
  with assms show ?thesis by (auto simp: prepManifest_def make_map_def)
next
  case (Some mf)
  with assms foldl_update_inv [of "[]" "m_DependencyConstraints mf"] show ?thesis
    by (auto simp: prepManifest_Some)
qed

lemma init_focus_root:
  assumes "rm_c rm = GoMap al" and "\<forall>p\<in>set al. ProjectRoot (Ident (snd p)) = fst p"
  shows "ProjectRoot (Ident (init_focus rm root c)) = root"
proof (cases "map_of al root")
  case None
  with assms show ?thesis by (simp add: init_focus_def)
next
  case (Some f)
  then have "(root, f) \<in> set al" by (rule map_of_SomeD)
  with assms(2) have "ProjectRoot (Ident f) = root" by force
  with assms(1) Some show ?thesis by (simp add: init_focus_def)
qed

lemma run_setup_Done:
  assumes "run_setup e fl args = Done cx"
  shows "\<exists>m l c. DeriveManifestAndLock e (cx_wd cx) (ImportRoot (cx_params cx)) = Inr (m, l)
      \<and> prepManifest m = Inr (cx_rm cx)
      \<and> cx_focus cx = init_focus (cx_rm cx) (cx_root cx) c"
  using assms
  by (auto simp: run_setup_def Let_def
      split: list.splits sum.splits option.splits if_splits prod.splits)

lemma solve_one_log:
  "solve_one e ps v w = (soe, w') \<Longrightarrow>
     \<exists>cs. calls w' = calls w @ cs \<and> (\<forall>x\<in>set cs. fst x = CallPrepare ps \<or> fst x = CallSolve ps)"
  by (auto simp: solve_one_def split: option.splits sum.splits)

lemma sweep_step_log:
  assumes "sweep_step e fl root params rm focus v w = (r, w')" and "rm_c rm = GoMap al"
  shows "\<exists>cs. calls w' = calls w @ cs
     \<and> (\<forall>x\<in>set cs. fst x = CallPrepare (params\<lparr>Manifest := rm\<lparr>rm_c := GoMap (AList.update root
                          (focus\<lparr>Constraint := IsVersion v\<rparr>) al)\<rparr>\<rparr>)
                   \<or> fst x = CallSolve (params\<lparr>Manifest := rm\<lparr>rm_c := GoMap (AList.update root
                          (focus\<lparr>Constraint := IsVersion v\<rparr>) al)\<rparr>\<rparr>))
     \<and> (\<forall>y. r = Inr y \<longrightarrow> fst y = rm\<lparr>rm_c := GoMap (AList.update root
                          (focus\<lparr>Constraint := IsVersion v\<rparr>) al)\<rparr>
                        \<and> fst (snd y) = focus\<lparr>Constraint := IsVersion v\<rparr>)"
proof -
  let ?rm = "rm\<lparr>rm_c := GoMap (AList.update root (focus\<lparr>Constraint := IsVersion v\<rparr>) al)\<rparr>"
  obtain soe w1 where s: "solve_one e (params\<lparr>Manifest := ?rm\<rparr>) v (emit (LookingFor root v) w) = (soe, w1)"
    by (cases "solve_one e (params\<lparr>Manifest := ?rm\<rparr>) v (emit (LookingFor root v) w)")
  obtain p w2 where o: "show_outcome fl soe w1 = (p, w2)"
    by (cases "show_outcome fl soe w1")
  from assms s o have r: "w' = w2" "\<forall>y. r = Inr y \<longrightarrow> y = (?rm, focus\<lparr>Constraint := IsVersion v\<rparr>, soe)"
    by (auto simp: sweep_step_def split: option.splits)
  from solve_one_log [OF s] show_outcome_frame [OF o] r show ?thesis
    by auto
qed

lemma sweep_manifests:
  "sweep e fl root params rm focus vl solns w = (r, w') \<Longrightarrow> rm_c rm = GoMap al \<Longrightarrow>
   distinct (map fst al) \<Longrightarrow> \<forall>p\<in>set al. ProjectRoot (Ident (snd p)) = fst p \<Longrightarrow>
   ProjectRoot (Ident focus) = root \<Longrightarrow>
   \<exists>cs. calls w' = calls w @ cs \<and>
    (\<forall>x\<in>set cs. \<forall>ps. fst x = CallPrepare ps \<or> fst x = CallSolve ps \<longrightarrow>
       (\<forall>k. k \<noteq> root \<longrightarrow> gm_lookup (rm_c (Manifest ps)) k = map_of al k)
     \<and> rm_tc (Manifest ps) = rm_tc rm \<and> rm_ovr (Manifest ps) = rm_ovr rm
     \<and> rm_ig (Manifest ps) = rm_ig rm
     \<and> (\<exists>v\<in>set vl. filter (\<lambda>d. ProjectRoot (Ident d) = root) (DependencyConstraints (Manifest ps))
            = [focus\<lparr>Constraint := IsVersion v\<rparr>]))"
proof (induction vl arbitrary: rm al focus solns w)
  case Nil
  then show ?case by simp
next
  case (Cons v vl)
  let ?f = "focus\<lparr>Constraint := IsVersion v\<rparr>"
  let ?al = "AList.update root ?f al"
  let ?rm = "rm\<lparr>rm_c := GoMap ?al\<rparr>"
  let ?ps = "params\<lparr>Manifest := ?rm\<rparr>"
  obtain r1 w1 where st: "sweep_step e fl root params rm focus v w = (r1, w1)"
    by (cases "sweep_step e fl root params rm focus v w")
  from sweep_step_log [OF st Cons.prems(2)] obtain cs1 where
    c1: "calls w1 = calls w @ cs1"
    and p1: "\<forall>x\<in>set cs1. fst x = CallPrepare ?ps \<or> fst x = CallSolve ?ps"
    and y1: "\<forall>y. r1 = Inr y \<longrightarrow> fst y = ?rm \<and> fst (snd y) = ?f"
    by blast
  have froot: "ProjectRoot (Ident ?f) = root" using Cons.prems(5) by simp
  have one: "filter (\<lambda>d. ProjectRoot (Ident d) = root) (DependencyConstraints (Manifest ?ps)) = [?f]"
    using update_focal_only [OF Cons.prems(3) Cons.prems(4) froot]
    by (simp add: DependencyConstraints_def)
  have look: "\<forall>k. k \<noteq> root \<longrightarrow> gm_lookup (rm_c (Manifest ?ps)) k = map_of al k"
    by (simp add: update_conv')
  have good1: "\<forall>x\<in>set cs1. \<forall>ps. fst x = CallPrepare ps \<or> fst x = CallSolve ps \<longrightarrow>
       (\<forall>k. k \<noteq> root \<longrightarrow> gm_lookup (rm_c (Manifest ps)) k = map_of al k)
     \<and> rm_tc (Manifest ps) = rm_tc rm \<and> rm_ovr (Manifest ps) = rm_ovr rm
     \<and> rm_ig (Manifest ps) = rm_ig rm
     \<and> (\<exists>u\<in>set (v # vl). filter (\<lambda>d. ProjectRoot (Ident d) = root) (DependencyConstraints (Manifest ps))
            = [focus\<lparr>Constraint := IsVersion u\<rparr>])"
  proof (intro ballI allI impI)
    fix x ps
    assume x: "x \<in> set cs1" and "fst x = CallPrepare ps \<or> fst x = CallSolve ps"
    with p1 have "ps = ?ps" by auto
    with one look show "(\<forall>k. k \<noteq> root \<longrightarrow> gm_lookup (rm_c (Manifest ps)) k = map_of al k)
     \<and> rm_tc (Manifest ps) = rm_tc rm \<and> rm_ovr (Manifest ps) = rm_ovr rm
     \<and> rm_ig (Manifest ps) = rm_ig rm
     \<and> (\<exists>u\<in>set (v # vl). filter (\<lambda>d. ProjectRoot (Ident d) = root) (DependencyConstraints (Manifest ps))
            = [focus\<lparr>Constraint := IsVersion u\<rparr>])"
      by simp
  qed
  show ?case
  proof (cases r1)
    case (Inl p)
    with Cons.prems(1) st have "w' = w1" by simp
    with c1 good1 show ?thesis by blast
  next
    case (Inr y)
    obtain rm' focus' soe where y: "y = (rm', focus', soe)" by (cases y)
    with y1 Inr have rf: "rm' = ?rm" "focus' = ?f" by simp_all
    from Cons.prems(1) st Inr y rf
    have rest: "sweep e fl root params ?rm ?f vl (solns @ [soe]) w1 = (r, w')" by simp
    have i1: "rm_c ?rm = GoMap ?al" by simp
    have i2: "distinct (map fst ?al)" using Cons.prems(3) by (rule distinct_update)
    have i3: "\<forall>p\<in>set ?al. ProjectRoot (Ident (snd p)) = fst p"
      using Cons.prems(4) froot set_update_subset [of root ?f al] by auto
    from Cons.IH [OF rest i1 i2 i3 froot] obtain cs2 where
      c2: "calls w' = calls w1 @ cs2"
      and g2: "\<forall>x\<in>set cs2. \<forall>ps. fst x = CallPrepare ps \<or> fst x = CallSolve ps \<longrightarrow>
       (\<forall>k. k \<noteq> root \<longrightarrow> gm_lookup (rm_c (Manifest ps)) k = map_of ?al k)
     \<and> rm_tc (Manifest ps) = rm_tc ?rm \<and> rm_ovr (Manifest ps) = rm_ovr ?rm
     \<and> rm_ig (Manifest ps) = rm_ig ?rm
     \<and> (\<exists>u\<in>set vl. filter (\<lambda>d. ProjectRoot (Ident d) = root) (DependencyConstraints (Manifest ps))
            = [?f\<lparr>Constraint := IsVersion u\<rparr>])"
      by blast
    have good2: "\<forall>x\<in>set cs2. \<forall>ps. fst x = CallPrepare ps \<or> fst x = CallSolve ps \<longrightarrow>
       (\<forall>k. k \<noteq> root \<longrightarrow> gm_lookup (rm_c (Manifest ps)) k = map_of al k)
     \<and> rm_tc (Manifest ps) = rm_tc rm \<and> rm_ovr (Manifest ps) = rm_ovr rm
     \<and> rm_ig (Manifest ps) = rm_ig rm
     \<and> (\<exists>u\<in>set (v # vl). filter (\<lambda>d. ProjectRoot (Ident d) = root) (DependencyConstraints (Manifest ps))
            = [focus\<lparr>Constraint := IsVersion u\<rparr>])"
    proof (intro ballI allI impI)
      fix x ps
      assume "x \<in> set cs2" and "fst x = CallPrepare ps \<or> fst x = CallSolve ps"
      with g2 have h: "(\<forall>k. k \<noteq> root \<longrightarrow> gm_lookup (rm_c (Manifest ps)) k = map_of ?al k)
     \<and> rm_tc (Manifest ps) = rm_tc ?rm \<and> rm_ovr (Manifest ps) = rm_ovr ?rm
     \<and> rm_ig (Manifest ps) = rm_ig ?rm
     \<and> (\<exists>u\<in>set vl. filter (\<lambda>d. ProjectRoot (Ident d) = root) (DependencyConstraints (Manifest ps))
            = [?f\<lparr>Constraint := IsVersion u\<rparr>])"
        by blast
      then show "(\<forall>k. k \<noteq> root \<longrightarrow> gm_lookup (rm_c (Manifest ps)) k = map_of al k)
     \<and> rm_tc (Manifest ps) = rm_tc rm \<and> rm_ovr (Manifest ps) = rm_ovr rm
     \<and> rm_ig (Manifest ps) = rm_ig rm
     \<and> (\<exists>u\<in>set (v # vl). filter (\<lambda>d. ProjectRoot (Ident d) = root) (DependencyConstraints (Manifest ps))
            = [focus\<lparr>Constraint := IsVersion u\<rparr>])"
        by (auto simp: update_conv')
    qed
    have "calls w' = calls w @ (cs1 @ cs2)" using c1 c2 by simp
    moreover from good1 good2 have "\<forall>x\<in>set (cs1 @ cs2). \<forall>ps. fst x = CallPrepare ps \<or> fst x = CallSolve ps \<longrightarrow>
       (\<forall>k. k \<noteq> root \<longrightarrow> gm_lookup (rm_c (Manifest ps)) k = map_of al k)
     \<and> rm_tc (Manifest ps) = rm_tc rm \<and> rm_ovr (Manifest ps) = rm_ovr rm
     \<and> rm_ig (Manifest ps) = rm_ig rm
     \<and> (\<exists>u\<in>set (v # vl). filter (\<lambda>d. ProjectRoot (Ident d) = root) (DependencyConstraints (Manifest ps))
            = [focus\<lparr>Constraint := IsVersion u\<rparr>])"
      by (metis Un_iff set_append)
    ultimately show ?thesis by blast
  qed
qed

lemma check_one_no_solver:
  assumes "check_one e fl root wd vpath soln (fail, w) = (fail', w')"
  shows "\<exists>cs. calls w' = calls w @ cs \<and> (\<forall>x\<in>set cs. \<not> is_solver_call (fst x))"
  using assms
  by (auto simp: check_one_def gps_WriteDepTree_def exec_CombinedOutput_def os_RemoveAll_def
      split: prod.splits option.splits if_splits)

lemma check_all_no_solver:
  "check_all e fl root wd vpath solns (fail, w) = (fail', w') \<Longrightarrow>
   \<exists>cs. calls w' = calls w @ cs \<and> (\<forall>x\<in>set cs. \<not> is_solver_call (fst x))"
proof (induction solns arbitrary: fail w)
  case Nil
  then show ?case by simp
next
  case (Cons s solns)
  obtain f1 w1 where one: "check_one e fl root wd vpath s (fail, w) = (f1, w1)"
    by (cases "check_one e fl root wd vpath s (fail, w)")
  with Cons.prems have rest: "check_all e fl root wd vpath solns (f1, w1) = (fail', w')"
    by simp
  from check_one_no_solver [OF one] obtain cs1 where
    c1: "calls w1 = calls w @ cs1" "\<forall>x\<in>set cs1. \<not> is_solver_call (fst x)" by blast
  from Cons.IH [OF rest] obtain cs2 where
    c2: "calls w' = calls w1 @ cs2" "\<forall>x\<in>set cs2. \<not> is_solver_call (fst x)" by blast
  have "calls w' = calls w @ (cs1 @ cs2)" using c1 c2 by simp
  moreover have "\<forall>x\<in>set (cs1 @ cs2). \<not> is_solver_call (fst x)" using c1 c2 by auto
  ultimately show ?case by blast
qed

lemma report_no_solver:
  assumes "report e fl root wd solns w = (r, w')"
  shows "\<exists>cs. calls w' = calls w @ cs \<and> (\<forall>x\<in>set cs. \<not> is_solver_call (fst x))"
proof -
  let ?vp = "filepath_Join wd ''vendor''" and ?bp = "filepath_Join wd ''_origvendor''"
  have ca: "\<exists>cs. calls (snd (check_all e fl root wd ?vp solns (False, w0))) = calls w0 @ cs
      \<and> (\<forall>x\<in>set cs. \<not> is_solver_call (fst x))" for w0
    using check_all_no_solver [OF surjective_pairing] .
  obtain ex w1 where st: "os_Stat ?vp w = (ex, w1)" by (cases "os_Stat ?vp w")
  note s1 = os_Stat_calls [OF st]
  obtain b w2 where rn: "os_Rename ?vp ?bp w1 = (b, w2)" by (cases "os_Rename ?vp ?bp w1")
  note s2 = os_Rename_calls [OF rn]
  obtain b4 w4 where rs: "os_Rename ?bp ?vp (snd (check_all e fl root wd ?vp solns (False, w2))) = (b4, w4)"
    by (cases "os_Rename ?bp ?vp (snd (check_all e fl root wd ?vp solns (False, w2)))")
  note s4 = os_Rename_calls [OF rs]
  from ca [of w] obtain csa where a: "calls (snd (check_all e fl root wd ?vp solns (False, w))) = calls w @ csa"
      "\<forall>x\<in>set csa. \<not> is_solver_call (fst x)" by blast
  from ca [of w1] obtain csb where b: "calls (snd (check_all e fl root wd ?vp solns (False, w1))) = calls w1 @ csb"
      "\<forall>x\<in>set csb. \<not> is_solver_call (fst x)" by blast
  from ca [of w2] obtain csc where c: "calls (snd (check_all e fl root wd ?vp solns (False, w2))) = calls w2 @ csc"
      "\<forall>x\<in>set csc. \<not> is_solver_call (fst x)" by blast
  consider (norun) "w' = snd (check_all e fl root wd ?vp solns (False, w))"
    | (novendor) "w' = snd (check_all e fl root wd ?vp solns (False, w1))"
    | (nobackup) "w' = w2"
    | (full) "w' = w4"
    using assms st rn rs
    by (auto simp: report_def Let_def split: if_splits prod.splits option.splits bool.splits)
  then show ?thesis
  proof cases
    case norun
    with a show ?thesis by blast
  next
    case novendor
    have "calls w' = calls w @ ((CallStat ?vp ex, disk w1) # csb)"
      using novendor b s1 by simp
    moreover have "\<forall>x\<in>set ((CallStat ?vp ex, disk w1) # csb). \<not> is_solver_call (fst x)"
      using b by simp
    ultimately show ?thesis by blast
  next
    case nobackup
    have "calls w' = calls w @ [(CallStat ?vp ex, disk w1), (CallRename ?vp ?bp b, disk w2)]"
      using nobackup s1 s2 by simp
    moreover have "\<forall>x\<in>set [(CallStat ?vp ex, disk w1), (CallRename ?vp ?bp b, disk w2)].
        \<not> is_solver_call (fst x)" by simp
    ultimately show ?thesis by blast
  next
    case full
    have "calls w' = calls w @ ((CallStat ?vp ex, disk w1) # (CallRename ?vp ?bp b, disk w2)
        # csc @ [(CallRename ?bp ?vp b4, disk w4)])"
      using full s1 s2 s4 c by simp
    moreover have "\<forall>x\<in>set ((CallStat ?vp ex, disk w1) # (CallRename ?vp ?bp b, disk w2)
        # csc @ [(CallRename ?bp ?vp b4, disk w4)]). \<not> is_solver_call (fst x)"
      using c by simp
    ultimately show ?thesis by blast
  qed
qed

text \<open>
  C4. Take a run whose setup succeeded, so that the baseline constraint set is the one
  \<^verbatim>\<open>prepManifest\<close> built from the project's manifest, and any call RunGTA makes to
  the solver (\<^verbatim>\<open>gps.Prepare\<close> or \<^verbatim>\<open>Solve\<close>). In the manifest the solver is given
  with that call, the entry of every project root other than the focal one is the
  baseline's entry (present or absent alike), the test-only map, the overrides and
  the ignores are the baseline's, and among the normal constraints exactly one entry
  is for the focal root: the focal entry with its constraint set to the candidate
  version of that iteration.
\<close>

theorem sweep_keeps_baseline:
  assumes su: "run_setup e fl args = Done cx"
    and x: "x \<in> set (drop (length (calls w)) (calls (snd (RunGTA e fl args w))))"
    and ps: "fst x = CallPrepare ps \<or> fst x = CallSolve ps"
  shows "(\<exists>m l. DeriveManifestAndLock e (cx_wd cx) (ImportRoot (cx_params cx)) = Inr (m, l)
            \<and> prepManifest m = Inr (cx_rm cx))
     \<and> (\<forall>k. k \<noteq> cx_root cx \<longrightarrow>
            gm_lookup (rm_c (Manifest ps)) k = gm_lookup (rm_c (cx_rm cx)) k)
     \<and> rm_tc (Manifest ps) = rm_tc (cx_rm cx)
     \<and> rm_ovr (Manifest ps) = rm_ovr (cx_rm cx)
     \<and> rm_ig (Manifest ps) = rm_ig (cx_rm cx)
     \<and> (\<exists>v\<in>set (cx_vl cx).
           filter (\<lambda>d. ProjectRoot (Ident d) = cx_root cx) (DependencyConstraints (Manifest ps))
             = [(cx_focus cx)\<lparr>Constraint := IsVersion v\<rparr>])"
proof -
  from run_setup_Done [OF su] obtain m l c where
    ml: "DeriveManifestAndLock e (cx_wd cx) (ImportRoot (cx_params cx)) = Inr (m, l)"
    and pm: "prepManifest m = Inr (cx_rm cx)"
    and fo: "cx_focus cx = init_focus (cx_rm cx) (cx_root cx) c"
    by blast
  from prepManifest_inv [OF pm] obtain al where
    al: "rm_c (cx_rm cx) = GoMap al" "distinct (map fst al)"
      "\<forall>p\<in>set al. ProjectRoot (Ident (snd p)) = fst p"
    by blast
  have fr: "ProjectRoot (Ident (cx_focus cx)) = cx_root cx"
    using init_focus_root [OF al(1) al(3)] fo by simp
  let ?w1 = "emit (Checking (cx_root cx) (cx_vl cx)) w"
  obtain r2 w2 where sw: "sweep e fl (cx_root cx) (cx_params cx) (cx_rm cx) (cx_focus cx)
      (cx_vl cx) [] ?w1 = (r2, w2)"
    by (cases "sweep e fl (cx_root cx) (cx_params cx) (cx_rm cx) (cx_focus cx) (cx_vl cx) [] ?w1")
  from sweep_manifests [OF sw al fr] obtain cs where
    cs: "calls w2 = calls ?w1 @ cs"
    and good: "\<forall>x\<in>set cs. \<forall>ps. fst x = CallPrepare ps \<or> fst x = CallSolve ps \<longrightarrow>
       (\<forall>k. k \<noteq> cx_root cx \<longrightarrow> gm_lookup (rm_c (Manifest ps)) k = map_of al k)
     \<and> rm_tc (Manifest ps) = rm_tc (cx_rm cx) \<and> rm_ovr (Manifest ps) = rm_ovr (cx_rm cx)
     \<and> rm_ig (Manifest ps) = rm_ig (cx_rm cx)
     \<and> (\<exists>v\<in>set (cx_vl cx). filter (\<lambda>d. ProjectRoot (Ident d) = cx_root cx)
            (DependencyConstraints (Manifest ps)) = [(cx_focus cx)\<lparr>Constraint := IsVersion v\<rparr>])"
    by blast
  have solver: "is_solver_call (fst x)" using ps by auto
  have "x \<in> set cs"
  proof (cases r2)
    case (Inl p)
    with su sw have "snd (RunGTA e fl args w) = w2" by (simp add: RunGTA_def)
    with x cs show ?thesis by simp
  next
    case (Inr solns)
    obtain r3 w3 where rp: "report e fl (cx_root cx) (cx_wd cx) solns (emit Spacer w2) = (r3, w3)"
      by (cases "report e fl (cx_root cx) (cx_wd cx) solns (emit Spacer w2)")
    from report_no_solver [OF rp] obtain cs3 where
      c3: "calls w3 = calls (emit Spacer w2) @ cs3" "\<forall>x\<in>set cs3. \<not> is_solver_call (fst x)"
      by blast
    from su sw Inr rp have "snd (RunGTA e fl args w) = w3" by (simp add: RunGTA_def)
    with x cs c3 have "x \<in> set cs \<or> x \<in> set cs3" by auto
    with c3 solver show ?thesis by blast
  qed
  with good ps have "(\<forall>k. k \<noteq> cx_root cx \<longrightarrow> gm_lookup (rm_c (Manifest ps)) k = map_of al k)
     \<and> rm_tc (Manifest ps) = rm_tc (cx_rm cx) \<and> rm_ovr (Manifest ps) = rm_ovr (cx_rm cx)
     \<and> rm_ig (Manifest ps) = rm_ig (cx_rm cx)
     \<and> (\<exists>v\<in>set (cx_vl cx). filter (\<lambda>d. ProjectRoot (Ident d) = cx_root cx)
            (DependencyConstraints (Manifest ps)) = [(cx_focus cx)\<lparr>Constraint := IsVersion v\<rparr>])"
    by blast
  with ml pm al(1) show ?thesis by auto
qed

lemma demo_setup:
  "\<exists>cx. run_setup demo_env demo_flags [''github.com/foo/bar''] = Done cx
      \<and> cx_root cx = ''github.com/foo/bar''
      \<and> gm_lookup (rm_c (cx_rm cx)) ''github.com/baz/qux''
          = Some \<lparr>Ident = \<lparr>ProjectRoot = ''github.com/baz/qux'', NetworkName = ''''\<rparr>,
                  Constraint = NewVersion ''v3''\<rparr>
      \<and> rm_tc (cx_rm cx) = GoMap []"
  by (simp add: run_setup_def parse_constraint_def prepManifest_def make_map_def init_focus_def
      filepath_Join_def filepath_ToSlash_def strings_TrimPrefix_def Let_def demo_defs)

lemma demo_log_length:
  "length (calls (snd (RunGTA demo_env demo_flags [''github.com/foo/bar''] demo_world))) = 15"
  by (simp add: RunGTA_defs demo_defs)

lemma demo_log_2:
  "fst (calls (snd (RunGTA demo_env demo_flags [''github.com/foo/bar''] demo_world)) ! 2)
     = CallPrepare (demo_ps (PairedVersion ''v2'' ''2222222bbb''))"
  by (simp add: RunGTA_defs demo_defs demo_ps_def)

text \<open>
  In the concrete run, the third solver call is for v2: the entry of
  \<open>github.com/baz/qux\<close> is the manifest's, and the one focal entry is pinned.
\<close>

theorem sweep_keeps_baseline_witness:
  "fst (calls (snd (RunGTA demo_env demo_flags [''github.com/foo/bar''] demo_world)) ! 2)
     = CallPrepare (demo_ps (PairedVersion ''v2'' ''2222222bbb''))
   \<and> gm_lookup (rm_c (Manifest (demo_ps (PairedVersion ''v2'' ''2222222bbb''))))
        ''github.com/baz/qux''
       = Some \<lparr>Ident = \<lparr>ProjectRoot = ''github.com/baz/qux'', NetworkName = ''''\<rparr>,
               Constraint = NewVersion ''v3''\<rparr>
   \<and> rm_tc (Manifest (demo_ps (PairedVersion ''v2'' ''2222222bbb''))) = GoMap []
   \<and> (\<exists>v. filter (\<lambda>d. ProjectRoot (Ident d) = ''github.com/foo/bar'')
          (DependencyConstraints (Manifest (demo_ps (PairedVersion ''v2'' ''2222222bbb''))))
       = [\<lparr>Ident = \<lparr>ProjectRoot = ''github.com/foo/bar'', NetworkName = ''''\<rparr>,
           Constraint = IsVersion v\<rparr>])"
proof -
  let ?W = "snd (RunGTA demo_env demo_flags [''github.com/foo/bar''] demo_world)"
  from demo_setup obtain cx where
    su: "run_setup demo_env demo_flags [''github.com/foo/bar''] = Done cx"
    and root: "cx_root cx = ''github.com/foo/bar''"
    and qux: "gm_lookup (rm_c (cx_rm cx)) ''github.com/baz/qux''
          = Some \<lparr>Ident = \<lparr>ProjectRoot = ''github.com/baz/qux'', NetworkName = ''''\<rparr>,
                  Constraint = NewVersion ''v3''\<rparr>"
    and tc: "rm_tc (cx_rm cx) = GoMap []"
    by blast
  have "calls ?W ! 2 \<in> set (calls ?W)"
    using demo_log_length by (intro nth_mem) simp
  then have x: "calls ?W ! 2 \<in> set (drop (length (calls demo_world)) (calls ?W))"
    by (simp add: demo_world_def)
  note k = sweep_keeps_baseline [OF su x disjI1 [OF demo_log_2]]
  from k root qux have a: "gm_lookup (rm_c (Manifest (demo_ps (PairedVersion ''v2'' ''2222222bbb''))))
        ''github.com/baz/qux''
       = Some \<lparr>Ident = \<lparr>ProjectRoot = ''github.com/baz/qux'', NetworkName = ''''\<rparr>,
               Constraint = NewVersion ''v3''\<rparr>"
    by simp
  from k tc have b: "rm_tc (Manifest (demo_ps (PairedVersion ''v2'' ''2222222bbb''))) = GoMap []"
    by simp
  have c: "\<exists>v. filter (\<lambda>d. ProjectRoot (Ident d) = ''github.com/foo/bar'')
          (DependencyConstraints (Manifest (demo_ps (PairedVersion ''v2'' ''2222222bbb''))))
       = [\<lparr>Ident = \<lparr>ProjectRoot = ''github.com/foo/bar'', NetworkName = ''''\<rparr>,
           Constraint = IsVersion v\<rparr>]"
    by (simp add: demo_ps_def DependencyConstraints_def)
  from demo_log_2 a b c show ?thesis by (intro conjI)
qed

section \<open>The outcome records of the sweep\<close>

lemma show_projects_panic:
  "show_projects s w = (Some p, w') \<Longrightarrow> \<exists>n<7. p = SliceOutOfRange 7 n"
  by (induction s arbitrary: w) (auto split: version.splits if_splits)

lemma fst_solve_one: "fst (solve_one e ps v w) = fst (solve_one e ps v w0)"
  by (simp add: solve_one_def split: option.splits sum.splits)

lemma solve_one_v: "soe_v (fst (solve_one e ps v w)) = v"
  by (simp add: solve_one_def split: option.splits sum.splits)

lemma solve_one_solution:
  "soe_err (fst (solve_one e ps v w)) = None \<Longrightarrow> soe_s (fst (solve_one e ps v w)) \<noteq> None"
  by (simp add: solve_one_def split: option.splits sum.splits)

lemma show_outcome_panic:
  assumes "show_outcome fl soe w = (Some p, w')" and "soe_err soe = None \<longrightarrow> soe_s soe \<noteq> None"
  shows "verbose fl \<and> (\<exists>n<7. p = SliceOutOfRange 7 n)"
  using assms
  by (auto simp: show_outcome_def split: option.splits if_splits dest: show_projects_panic)

lemma show_outcome_quiet: "\<not> verbose fl \<Longrightarrow> fst (show_outcome fl soe w) = None"
  by (simp add: show_outcome_def split: option.splits)

lemma sweep_step_result:
  assumes "sweep_step e fl root params rm focus v w = (r, w')" and "rm_c rm = GoMap al"
  shows "(case r of
            Inr y \<Rightarrow> y = (rm\<lparr>rm_c := GoMap (AList.update root (focus\<lparr>Constraint := IsVersion v\<rparr>) al)\<rparr>,
                          focus\<lparr>Constraint := IsVersion v\<rparr>,
                          fst (solve_one e (params\<lparr>Manifest := rm\<lparr>rm_c := GoMap (AList.update root
                             (focus\<lparr>Constraint := IsVersion v\<rparr>) al)\<rparr>\<rparr>) v w0))
          | Inl p \<Rightarrow> verbose fl \<and> (\<exists>n<7. p = SliceOutOfRange 7 n))"
proof -
  let ?rm = "rm\<lparr>rm_c := GoMap (AList.update root (focus\<lparr>Constraint := IsVersion v\<rparr>) al)\<rparr>"
  let ?w0 = "emit (LookingFor root v) w"
  obtain soe w1 where s: "solve_one e (params\<lparr>Manifest := ?rm\<rparr>) v ?w0 = (soe, w1)"
    by (cases "solve_one e (params\<lparr>Manifest := ?rm\<rparr>) v ?w0")
  then have soe: "soe = fst (solve_one e (params\<lparr>Manifest := ?rm\<rparr>) v w0)"
    using fst_solve_one [of e "params\<lparr>Manifest := ?rm\<rparr>" v ?w0 w0] by simp
  have ok: "soe_err soe = None \<longrightarrow> soe_s soe \<noteq> None"
    using solve_one_solution [of e "params\<lparr>Manifest := ?rm\<rparr>" v w0] soe by simp
  obtain p w2 where o: "show_outcome fl soe w1 = (p, w2)"
    by (cases "show_outcome fl soe w1")
  show ?thesis
  proof (cases p)
    case None
    with assms s o soe show ?thesis by (auto simp: sweep_step_def)
  next
    case (Some q)
    with show_outcome_panic [of fl soe w1 q w2] o ok
    have "verbose fl \<and> (\<exists>n<7. q = SliceOutOfRange 7 n)" by simp
    with assms s o Some show ?thesis by (auto simp: sweep_step_def)
  qed
qed

lemma sweep_result:
  "sweep e fl root params rm focus vl solns w = (r, w') \<Longrightarrow> rm_c rm = GoMap al \<Longrightarrow>
   (case r of
      Inr out \<Rightarrow> out = solns @ map (\<lambda>v. fst (solve_one e (params\<lparr>Manifest := rm\<lparr>rm_c := GoMap
                   (AList.update root (focus\<lparr>Constraint := IsVersion v\<rparr>) al)\<rparr>\<rparr>) v w0)) vl
    | Inl p \<Rightarrow> verbose fl \<and> (\<exists>n<7. p = SliceOutOfRange 7 n))"
proof (induction vl arbitrary: rm al focus solns w)
  case Nil
  then show ?case by auto
next
  case (Cons v vl)
  let ?f = "focus\<lparr>Constraint := IsVersion v\<rparr>"
  let ?al = "AList.update root ?f al"
  let ?rm = "rm\<lparr>rm_c := GoMap ?al\<rparr>"
  obtain r1 w1 where st: "sweep_step e fl root params rm focus v w = (r1, w1)"
    by (cases "sweep_step e fl root params rm focus v w")
  note h = sweep_step_result [OF st Cons.prems(2), of w0]
  show ?case
  proof (cases r1)
    case (Inl p)
    with Cons.prems(1) st h show ?thesis by auto
  next
    case (Inr y)
    with h have y: "y = (?rm, ?f, fst (solve_one e (params\<lparr>Manifest := ?rm\<rparr>) v w0))" by simp
    with Cons.prems(1) st Inr
    have rest: "sweep e fl root params ?rm ?f vl
        (solns @ [fst (solve_one e (params\<lparr>Manifest := ?rm\<rparr>) v w0)]) w1 = (r, w')"
      by simp
    have i1: "rm_c ?rm = GoMap ?al" by simp
    from Cons.IH [OF rest i1] show ?thesis
      by (cases r) simp_all
  qed
qed

text \<open>
  The sweep after a successful setup. Either it completes, and RunGTA reaches the
  backup with exactly one outcome record per filtered candidate, in the order of the
  candidates: the record of a candidate holds that candidate and what the solver
  answered (a solution, or the error of \<^verbatim>\<open>Prepare\<close> or \<^verbatim>\<open>Solve\<close>) for the baseline
  with the focal entry pinned to it. Or RunGTA panics, and then the flag
  \<^verbatim>\<open>--verbose\<close> is set and the panic is the slice of a revision string shorter than
  seven bytes in the display of a solution. An error of the solver never stops the
  sweep.
\<close>

theorem sweep_records:
  assumes "run_setup e fl args = Done cx"
  shows "case before_report e fl args w of
      Some (cx', solns, w2) \<Rightarrow>
        cx' = cx \<and> map soe_v solns = cx_vl cx \<and> length solns = length (cx_vl cx)
        \<and> (\<exists>al. rm_c (cx_rm cx) = GoMap al
             \<and> solns = map (\<lambda>v. fst (solve_one e ((cx_params cx)\<lparr>Manifest := (cx_rm cx)\<lparr>rm_c :=
                   GoMap (AList.update (cx_root cx) ((cx_focus cx)\<lparr>Constraint := IsVersion v\<rparr>) al)\<rparr>\<rparr>)
                   v w)) (cx_vl cx))
    | None \<Rightarrow> verbose fl \<and> (\<exists>n<7. fst (RunGTA e fl args w) = Panic (SliceOutOfRange 7 n))"
proof -
  from run_setup_Done [OF assms] obtain m where pm: "prepManifest m = Inr (cx_rm cx)" by blast
  from prepManifest_inv [OF pm] obtain al where al: "rm_c (cx_rm cx) = GoMap al" by blast
  let ?w1 = "emit (Checking (cx_root cx) (cx_vl cx)) w"
  obtain r2 w2 where sw: "sweep e fl (cx_root cx) (cx_params cx) (cx_rm cx) (cx_focus cx)
      (cx_vl cx) [] ?w1 = (r2, w2)"
    by (cases "sweep e fl (cx_root cx) (cx_params cx) (cx_rm cx) (cx_focus cx) (cx_vl cx) [] ?w1")
  note h = sweep_result [OF sw al, of w]
  show ?thesis
  proof (cases r2)
    case (Inl p)
    with h assms sw show ?thesis
      by (auto simp: before_report_def RunGTA_def)
  next
    case (Inr out)
    with h have out: "out = map (\<lambda>v. fst (solve_one e ((cx_params cx)\<lparr>Manifest := (cx_rm cx)\<lparr>rm_c :=
                   GoMap (AList.update (cx_root cx) ((cx_focus cx)\<lparr>Constraint := IsVersion v\<rparr>) al)\<rparr>\<rparr>)
                   v w)) (cx_vl cx)"
      by simp
    then have "map soe_v out = cx_vl cx" "length out = length (cx_vl cx)"
      by (simp_all add: comp_def solve_one_v)
    with out al Inr assms sw show ?thesis
      by (simp add: before_report_def)
  qed
qed

lemma demo_setup_vl:
  "\<exists>cx. run_setup demo_env demo_flags [''github.com/foo/bar''] = Done cx
      \<and> cx_vl cx = [PairedVersion ''v3'' ''3333333ccc'', PairedVersion ''v2'' ''2222222bbb'',
                     PairedVersion ''v1'' ''1111111aaa'']"
  by (simp add: run_setup_def parse_constraint_def prepManifest_def make_map_def init_focus_def
      filepath_Join_def filepath_ToSlash_def strings_TrimPrefix_def Let_def demo_defs)

lemma demo_before_report:
  "\<exists>cx solns w2. before_report demo_env demo_flags [''github.com/foo/bar''] demo_world
        = Some (cx, solns, w2)
      \<and> map soe_err solns = [Some ''no solution'', None, None]"
  by (simp add: RunGTA_defs demo_defs)

text \<open>
  In the concrete run the three candidates give three records, in order: an error for
  v3, solutions for v2 and v1.
\<close>

theorem sweep_records_witness:
  "\<exists>cx solns w2. before_report demo_env demo_flags [''github.com/foo/bar''] demo_world
        = Some (cx, solns, w2)
      \<and> map soe_v solns = [PairedVersion ''v3'' ''3333333ccc'', PairedVersion ''v2'' ''2222222bbb'',
                           PairedVersion ''v1'' ''1111111aaa'']
      \<and> map soe_err solns = [Some ''no solution'', None, None]"
proof -
  from demo_setup_vl obtain cx where
    su: "run_setup demo_env demo_flags [''github.com/foo/bar''] = Done cx"
    and vl: "cx_vl cx = [PairedVersion ''v3'' ''3333333ccc'', PairedVersion ''v2'' ''2222222bbb'',
                     PairedVersion ''v1'' ''1111111aaa'']"
    by blast
  from demo_before_report obtain cx' solns w2 where
    br: "before_report demo_env demo_flags [''github.com/foo/bar''] demo_world = Some (cx', solns, w2)"
    and er: "map soe_err solns = [Some ''no solution'', None, None]"
    by (elim exE conjE)
  from sweep_records [OF su, of demo_world] br have "map soe_v solns = cx_vl cx" by simp
  with vl br er show ?thesis by simp
qed

lemma bug_result:
  "fst (RunGTA (demo_env\<lparr>Solve := (\<lambda>ps. Inr
          [\<lparr>lp_Ident = \<lparr>ProjectRoot = ''github.com/baz/qux'', NetworkName = ''''\<rparr>,
            lp_Version = Revision ''abc123''\<rparr>])\<rparr>)
        (demo_flags\<lparr>verbose := True\<rparr>) [''github.com/foo/bar''] demo_world)
     = Panic (SliceOutOfRange 7 6)"
  by (simp add: RunGTA_defs demo_defs)

lemma bug_stdout:
  "stdout (snd (RunGTA (demo_env\<lparr>Solve := (\<lambda>ps. Inr
          [\<lparr>lp_Ident = \<lparr>ProjectRoot = ''github.com/baz/qux'', NetworkName = ''''\<rparr>,
            lp_Version = Revision ''abc123''\<rparr>])\<rparr>)
        (demo_flags\<lparr>verbose := True\<rparr>) [''github.com/foo/bar''] demo_world))
     = [Checking ''github.com/foo/bar''
          [PairedVersion ''v3'' ''3333333ccc'', PairedVersion ''v2'' ''2222222bbb'',
           PairedVersion ''v1'' ''1111111aaa''],
        LookingFor ''github.com/foo/bar'' (PairedVersion ''v3'' ''3333333ccc''),
        SolveSuccess]"
  by (simp add: RunGTA_defs demo_defs)

lemma bug_no_records:
  "before_report (demo_env\<lparr>Solve := (\<lambda>ps. Inr
          [\<lparr>lp_Ident = \<lparr>ProjectRoot = ''github.com/baz/qux'', NetworkName = ''''\<rparr>,
            lp_Version = Revision ''abc123''\<rparr>])\<rparr>)
        (demo_flags\<lparr>verbose := True\<rparr>) [''github.com/foo/bar''] demo_world = None"
  by (simp add: RunGTA_defs demo_defs)

text \<open>
  C3 asks for one outcome record per candidate of the filtered list, whatever the
  solver answers. The code does not deliver it in the following run: with
  \<^verbatim>\<open>--verbose\<close>, and a solver whose solution holds a project at the bare revision
  \<open>abc123\<close> (six bytes), the display of the first candidate's solution evaluates
  \<^verbatim>\<open>v.String()[:7]\<close> and panics. RunGTA ends in that panic right after printing the
  success of the first candidate: no outcome record is kept and the two remaining
  candidates are never tried.
\<close>

theorem sweep_verbose_panic:
  "fst (RunGTA (demo_env\<lparr>Solve := (\<lambda>ps. Inr
          [\<lparr>lp_Ident = \<lparr>ProjectRoot = ''github.com/baz/qux'', NetworkName = ''''\<rparr>,
            lp_Version = Revision ''abc123''\<rparr>])\<rparr>)
        (demo_flags\<lparr>verbose := True\<rparr>) [''github.com/foo/bar''] demo_world)
     = Panic (SliceOutOfRange 7 6)
   \<and> stdout (snd (RunGTA (demo_env\<lparr>Solve := (\<lambda>ps. Inr
          [\<lparr>lp_Ident = \<lparr>ProjectRoot = ''github.com/baz/qux'', NetworkName = ''''\<rparr>,
            lp_Version = Revision ''abc123''\<rparr>])\<rparr>)
        (demo_flags\<lparr>verbose := True\<rparr>) [''github.com/foo/bar''] demo_world))
     = [Checking ''github.com/foo/bar''
          [PairedVersion ''v3'' ''3333333ccc'', PairedVersion ''v2'' ''2222222bbb'',
           PairedVersion ''v1'' ''1111111aaa''],
        LookingFor ''github.com/foo/bar'' (PairedVersion ''v3'' ''3333333ccc''),
        SolveSuccess]
   \<and> before_report (demo_env\<lparr>Solve := (\<lambda>ps. Inr
          [\<lparr>lp_Ident = \<lparr>ProjectRoot = ''github.com/baz/qux'', NetworkName = ''''\<rparr>,
            lp_Version = Revision ''abc123''\<rparr>])\<rparr>)
        (demo_flags\<lparr>verbose := True\<rparr>) [''github.com/foo/bar''] demo_world = None"
  by (intro conjI bug_result bug_stdout bug_no_records)

end
